theory Spec2Isabelle
  imports Complex_Main "HOL-Library.Sublist" "HOL-Library.AList"
begin

section \<open>Voice Form Filler: the conversation state machine and the autofill loop\<close>

text \<open>
  A shallow embedding of \<^verbatim>\<open>ConversationStateMachine\<close> (the background service worker)
  and of \<^verbatim>\<open>FormAnalyzer.fillForm\<close> (the content script).

  Conventions of the embedding:
  \<^item> The mutable object \<^verbatim>\<open>this\<close> is the record \<open>session\<close>; every method takes the
    session and returns the updated one.
  \<^item> What a method sends outward is appended to the field \<open>effects\<close>, in program order:
    the popup notifications, the requests to \<^verbatim>\<open>/tts\<close> and \<^verbatim>\<open>/validate\<close>, the messages
    \<^verbatim>\<open>ANALYZE_PAGE\<close> and \<^verbatim>\<open>FILL_FORM\<close> to the content script, and the timers. The audio
    traffic (\<^verbatim>\<open>PLAY_AUDIO\<close>, the recording messages, the upload to \<^verbatim>\<open>/transcribe\<close>) is not
    recorded; \<^verbatim>\<open>startVoiceRecording\<close> and \<^verbatim>\<open>stopVoiceRecording\<close>, which touch no member of the
    session, appear only through the event that a recording has completed.
  \<^item> Everything a method receives from a collaborator while it runs (the draw of
    \<^verbatim>\<open>Math.random()\<close>, the replies of the three HTTP services, of the content script and of
    the autofill writer) is a field of the record \<open>env\<close>. One run of a handler consults each
    collaborator at most once, so one \<open>env\<close> per run is enough.
  \<^item> Execution is modelled at two grains. In the event loop \<open>step\<close> a handler runs from its
    entry to its next timer or return with the collaborator replies already available: other
    handlers are interleaved between runs, not inside one. In the loop \<open>occur\<close> every method
    is cut where it awaits a collaborator, and any message, timer or reply may come between
    two stretches of a method.
  \<^item> A JavaScript exception is the \<open>Inl\<close> of a sum; it carries the session as it was when
    the exception was thrown (mutations made before a throw persist) and the message.
  \<^item> A plain JavaScript object used as a dictionary is the association list of its own
    properties, in the order in which \<^verbatim>\<open>Object.entries\<close> and \<^verbatim>\<open>JSON.stringify\<close> visit them
    (\<open>obj_set\<close>). The members inherited from \<^verbatim>\<open>Object.prototype\<close> are modelled where the code
    reads the table of question phrasings by field type; the other reads by key are reads of
    own properties. The assignment to the key \<^verbatim>\<open>__proto__\<close>, which creates no own property,
    is not told apart: the statements on the validation request leave that label out.
  \<^item> \<^verbatim>\<open>apiUrl\<close>, console output, \<^verbatim>\<open>sendResponse\<close> and the audio payload do not influence
    the session and are left out.
\<close>

subsection \<open>JavaScript values\<close>

datatype jsval = Undefined | Null | Bool bool | Num rat | Str string | Arr "jsval list"

text \<open>Truthiness, as used by \<^verbatim>\<open>!x\<close>, \<^verbatim>\<open>x || y\<close> and \<^verbatim>\<open>if (x)\<close>.\<close>

fun truthy :: "jsval \<Rightarrow> bool" where
  "truthy Undefined = False"
| "truthy Null = False"
| "truthy (Bool b) = b"
| "truthy (Num n) = (n \<noteq> 0)"
| "truthy (Str s) = (s \<noteq> [])"
| "truthy (Arr vs) = True"

definition js_or :: "jsval \<Rightarrow> jsval \<Rightarrow> jsval" where
  "js_or a b = (if truthy a then a else b)"

text \<open>Reading \<^verbatim>\<open>xs[i]\<close>: out of range the result is \<^verbatim>\<open>undefined\<close>, here \<open>None\<close>.\<close>

definition at_index :: "'a list \<Rightarrow> int \<Rightarrow> 'a option" where
  "at_index xs i = (if 0 \<le> i \<and> i < int (length xs) then Some (xs ! nat i) else None)"

text \<open>\<^verbatim>\<open>Array.prototype.indexOf\<close>: the first position of the element, or \<open>-1\<close>.\<close>

fun indexOf :: "'a list \<Rightarrow> 'a \<Rightarrow> int" where
  "indexOf [] x = -1"
| "indexOf (y # ys) x = (if y = x then 0 else (let i = indexOf ys x in if i < 0 then -1 else i + 1))"

subsection \<open>Property order of objects\<close>

text \<open>\<^verbatim>\<open>Object.entries\<close>, \<^verbatim>\<open>for ... in\<close> and \<^verbatim>\<open>JSON.stringify\<close> visit the own properties of an
  object in this order: first the keys that are array indices (canonical decimal numerals below
  \<open>2\<^sup>3\<^sup>2 - 1\<close>), in ascending numeric order, then the other string keys in the order of their
  creation. An association list that stands for an object is kept in that order.\<close>

definition is_digit :: "char \<Rightarrow> bool" where
  "is_digit c = (48 \<le> (of_char c :: nat) \<and> (of_char c :: nat) \<le> 57)"

definition array_index :: "string \<Rightarrow> nat option" where
  "array_index k =
    (if k = [] \<or> \<not> list_all is_digit k \<or> (hd k = CHR ''0'' \<and> k \<noteq> ''0'')
     then None
     else (let n = foldl (\<lambda>a c. 10 * a + (of_char c - 48)) (0::nat) k
           in if n < 4294967295 then Some n else None))"

text \<open>Creating a property that the object does not have yet.\<close>

fun obj_insert :: "string \<Rightarrow> 'v \<Rightarrow> (string \<times> 'v) list \<Rightarrow> (string \<times> 'v) list" where
  "obj_insert k v [] = [(k, v)]"
| "obj_insert k v (kv # kvs) =
    (case array_index k of
       None \<Rightarrow> kv # obj_insert k v kvs
     | Some n \<Rightarrow>
         (case array_index (fst kv) of
            None \<Rightarrow> (k, v) # kv # kvs
          | Some n' \<Rightarrow> if n' < n then kv # obj_insert k v kvs else (k, v) # kv # kvs))"

text \<open>The assignment \<^verbatim>\<open>obj[k] = v\<close>: an existing property keeps its place.\<close>

definition obj_set :: "string \<Rightarrow> 'v \<Rightarrow> (string \<times> 'v) list \<Rightarrow> (string \<times> 'v) list" where
  "obj_set k v kvs =
    (case map_of kvs k of
       Some old \<Rightarrow> AList.update k v kvs
     | None \<Rightarrow> obj_insert k v kvs)"

subsection \<open>Double precision products\<close>

text \<open>A JavaScript number is a double, here the rational it denotes. The product of two
  doubles is the exact product rounded to the nearest double, ties to the even significand.
  \<open>ulp x\<close> is the distance between neighbouring doubles at \<open>x\<close>, for \<open>0 \<le> x < 4\<close>:
  \<open>2\<^sup>-\<^sup>5\<^sup>1\<close> on \<open>[2, 4)\<close>, halved for every halving of \<open>x\<close>, down to \<open>2\<^sup>-\<^sup>1\<^sup>0\<^sup>7\<^sup>4\<close> for the
  subnormal numbers. The products taken by the program are below 4.\<close>

fun spacing :: "nat \<Rightarrow> rat \<Rightarrow> rat \<Rightarrow> rat" where
  "spacing 0 x q = q"
| "spacing (Suc n) x q = (if 2 \<le> x then q else spacing n (2 * x) (q / 2))"

definition ulp :: "rat \<Rightarrow> rat" where
  "ulp x = spacing 1023 x (1 / 2 ^ 51)"

definition round_half_even :: "rat \<Rightarrow> int" where
  "round_half_even z =
    (let f = \<lfloor>z\<rfloor>; d = z - of_int f
     in if d < 1 / 2 then f else if 1 / 2 < d then f + 1 else if even f then f else f + 1)"

definition round_double :: "rat \<Rightarrow> rat" where
  "round_double x = (if x = 0 then 0 else of_int (round_half_even (x / ulp x)) * ulp x)"

subsection \<open>Data\<close>

datatype state = IDLE | ANALYZING | QUESTIONING | VALIDATING | CORRECTING | FILLING | COMPLETED | ERROR

text \<open>A detected field, as \<^verbatim>\<open>extractFieldInfo\<close> builds it (the members the two classes read).
  \<open>selector\<close> stands for the DOM element the field denotes.\<close>

record field =
  selector :: string
  f_type :: string
  f_id :: string
  f_name :: string
  humanLabel :: string

text \<open>An entry of \<^verbatim>\<open>fieldResponses\<close>. The last four members are absent (\<open>Undefined\<close>) until
  a validation result is merged.\<close>

record response =
  original :: jsval
  normalized :: jsval
  fieldType :: string
  fieldName :: string
  fieldId :: string
  valid :: jsval
  confidence :: jsval
  reason :: jsval
  suggestions :: jsval

text \<open>One entry of \<^verbatim>\<open>validationResult.results\<close>. The documented reply of \<^verbatim>\<open>POST /validate\<close>
  has \<^verbatim>\<open>normalized, valid, confidence, reason, suggestions\<close>; \<open>r_original\<close> is the member
  \<^verbatim>\<open>result.original\<close> that the merge reads, \<open>Undefined\<close> for a reply of the documented shape.\<close>

record vresult =
  r_normalized :: jsval
  r_original :: jsval
  r_valid :: jsval
  r_confidence :: jsval
  r_reason :: jsval
  r_suggestions :: jsval

record validation_result =
  results :: "(string \<times> vresult) list"
  all_valid :: jsval
  invalid_count :: jsval

text \<open>An entry of \<^verbatim>\<open>fillData\<close>, the payload of the \<^verbatim>\<open>FILL_FORM\<close> message.\<close>

record fill_entry =
  fd_normalized :: jsval
  fd_fieldName :: string
  fd_fieldId :: string

datatype notification =
    STATUS_UPDATE string
  | TTS_FAILED jsval
  | FIELDS_DETECTED_MSG "(string \<times> string \<times> string) list"
  | CONVERSATION_STARTED nat
  | QUESTION_ASKED int nat jsval string
  | ANSWER_RECEIVED int nat string jsval
  | VALIDATION_STARTED
  | VALIDATION_COMPLETED jsval jsval
  | FORM_FILLED
  | ERROR_MSG string

datatype timer = Timer_startVoiceRecording | Timer_askCurrentQuestion

datatype effect =
    Notify notification
  | SendMessage_ANALYZE_PAGE
  | POST_tts jsval
  | SetTimeout timer nat
  | POST_validate "(string \<times> jsval) list" "(string \<times> string) list"
  | SendMessage_FILL_FORM "(string \<times> fill_entry) list"

record session =
  currentState :: state
  detectedFields :: "field list"
  fieldResponses :: "(string \<times> response) list"
  currentFieldIndex :: int
  retryCount :: nat
  effects :: "effect list"

definition maxRetries :: nat where
  "maxRetries = 3"

datatype analysis = AnalysisThrows string | AnalysisFailed "string option" | AnalysisOk "field list"

text \<open>The collaborators' replies during one run of a handler.
  \<^item> \<open>math_random\<close>: the value of \<^verbatim>\<open>Math.random()\<close>, in \<open>[0, 1)\<close>;
  \<^item> \<open>tts_ok\<close>: whether \<^verbatim>\<open>POST /tts\<close> succeeded;
  \<^item> \<open>transcription\<close>: \<open>Inr text\<close> is \<^verbatim>\<open>data.text\<close> of \<^verbatim>\<open>POST /transcribe\<close>, \<open>Inl m\<close> an
    exception with message \<open>m\<close> (undecodable audio, network error, status not ok);
  \<^item> \<open>validation\<close>: the reply of \<^verbatim>\<open>POST /validate\<close>, likewise;
  \<^item> \<open>analysis\<close>: the content script's reply to \<^verbatim>\<open>ANALYZE_PAGE\<close>;
  \<^item> \<open>active_tab\<close>: whether \<^verbatim>\<open>chrome.tabs.query\<close> finds an active tab;
  \<^item> \<open>fill_channel\<close>: \<open>Some m\<close> when sending \<^verbatim>\<open>FILL_FORM\<close> throws with message \<open>m\<close>;
  \<^item> \<open>content_fields\<close>: the content script's own \<^verbatim>\<open>detectedFields\<close>;
  \<^item> \<open>writer\<close>: \<^verbatim>\<open>fillField(element, value)\<close>, which catches every exception and returns a
    boolean.\<close>

record env =
  math_random :: rat
  tts_ok :: bool
  transcription :: "string + jsval"
  validation :: "string + validation_result"
  analysis :: analysis
  active_tab :: bool
  fill_channel :: "string option"
  content_fields :: "field list"
  writer :: "field \<Rightarrow> jsval \<Rightarrow> bool"

subsection \<open>The constructor and the small methods\<close>

definition constructor :: session where
  "constructor = \<lparr>currentState = IDLE, detectedFields = [], fieldResponses = [],
     currentFieldIndex = 0, retryCount = 0, effects = []\<rparr>"

definition setState :: "state \<Rightarrow> session \<Rightarrow> session" where
  "setState newState s = s\<lparr>currentState := newState\<rparr>"

definition emit :: "effect \<Rightarrow> session \<Rightarrow> session" where
  "emit x s = s\<lparr>effects := effects s @ [x]\<rparr>"

definition notifyPopup :: "notification \<Rightarrow> session \<Rightarrow> session" where
  "notifyPopup m s = emit (Notify m) s"

subsection \<open>generateQuestion\<close>

text \<open>The members that every object literal inherits from \<^verbatim>\<open>Object.prototype\<close> (the
  extension runs on V8). Each is a function, except \<^verbatim>\<open>__proto__\<close>, which reads as the
  prototype object; all are truthy, and none has a member \<^verbatim>\<open>0\<close>, \<^verbatim>\<open>1\<close>, \<^verbatim>\<open>2\<close> or \<^verbatim>\<open>NaN\<close>.\<close>

definition object_prototype_members :: "string list" where
  "object_prototype_members =
     [''constructor'', ''__defineGetter__'', ''__defineSetter__'', ''hasOwnProperty'',
      ''__lookupGetter__'', ''__lookupSetter__'', ''isPrototypeOf'', ''propertyIsEnumerable'',
      ''toString'', ''valueOf'', ''__proto__'', ''toLocaleString'']"

text \<open>What reading \<^verbatim>\<open>questionTemplates[key]\<close> finds: an own member (an array of phrasings),
  an inherited member, or nothing (\<^verbatim>\<open>undefined\<close>).\<close>

datatype member = Own "string list" | Inherited | Absent

text \<open>The table \<^verbatim>\<open>questionTemplates\<close>, with the label already interpolated.\<close>

definition questionTemplates :: "string \<Rightarrow> string \<Rightarrow> member" where
  "questionTemplates fieldLabel fType =
    (if fType = ''email'' then Own
       [''What is your email address for '' @ fieldLabel @ ''?'',
        ''Please provide your email for '' @ fieldLabel,
        ''What email should I use for '' @ fieldLabel @ ''?'']
     else if fType = ''tel'' then Own
       [''What is your phone number for '' @ fieldLabel @ ''?'',
        ''Please provide your phone number for '' @ fieldLabel,
        ''What phone number should I use for '' @ fieldLabel @ ''?'']
     else if fType = ''password'' then Own
       [''Please provide a password for '' @ fieldLabel,
        ''What password would you like to use for '' @ fieldLabel @ ''?'',
        ''Please enter your password for '' @ fieldLabel]
     else if fType = ''textarea'' then Own
       [''Please provide '' @ fieldLabel,
        ''What would you like to enter for '' @ fieldLabel @ ''?'',
        ''Please describe '' @ fieldLabel]
     else if fType = ''text'' then Own
       [''What is your '' @ fieldLabel @ ''?'',
        ''Please provide '' @ fieldLabel,
        ''What should I enter for '' @ fieldLabel @ ''?'']
     else if fType \<in> set object_prototype_members then Inherited
     else Absent)"

text \<open>\<^verbatim>\<open>generateQuestion(field)\<close>; the second argument is the double \<^verbatim>\<open>Math.random()\<close> returns.
  \<^verbatim>\<open>questionTemplates[fieldType] || questionTemplates['text']\<close> falls back only when nothing is
  found: an inherited member is truthy and is taken as \<^verbatim>\<open>templates\<close>; whatever its
  \<^verbatim>\<open>length\<close>, it has no member at the computed index, so the result is \<^verbatim>\<open>undefined\<close>.\<close>

definition generateQuestion :: "field \<Rightarrow> rat \<Rightarrow> jsval" where
  "generateQuestion fld r =
    (let fType = f_type fld;
         fieldLabel = humanLabel fld;
         templates = (case questionTemplates fieldLabel fType of
                        Absent \<Rightarrow> questionTemplates fieldLabel ''text''
                      | found \<Rightarrow> found)
     in case templates of
          Own ts \<Rightarrow>
            (case at_index ts \<lfloor>round_double (r * of_nat (length ts))\<rfloor> of
               Some randomTemplate \<Rightarrow> Str randomTemplate
             | None \<Rightarrow> Undefined)
        | Inherited \<Rightarrow> Undefined
        | Absent \<Rightarrow> Undefined)"

subsection \<open>speakQuestion and the asking half of askCurrentQuestion\<close>

definition speakQuestion :: "env \<Rightarrow> jsval \<Rightarrow> session \<Rightarrow> session" where
  "speakQuestion e text s =
    (let s1 = emit (POST_tts text) s
     in if tts_ok e then s1 else notifyPopup (TTS_FAILED text) s1)"

text \<open>The part of \<^verbatim>\<open>askCurrentQuestion\<close> after the two guards: generate, notify, speak,
  schedule the recording.\<close>

definition askQuestion :: "env \<Rightarrow> field \<Rightarrow> session \<Rightarrow> session" where
  "askQuestion e fld s =
    (let question = generateQuestion fld (math_random e);
         s1 = notifyPopup (QUESTION_ASKED (currentFieldIndex s + 1) (length (detectedFields s))
                question (humanLabel fld)) s;
         s2 = speakQuestion e question s1
     in emit (SetTimeout Timer_startVoiceRecording 1000) s2)"

subsection \<open>FormAnalyzer.fillForm (content script)\<close>

text \<open>\<^verbatim>\<open>responses[field.humanLabel] || responses[field.name] || responses[field.id]\<close>;
  an entry is an object, hence truthy.\<close>

definition lookupResponse :: "(string \<times> fill_entry) list \<Rightarrow> field \<Rightarrow> fill_entry option" where
  "lookupResponse responses fld =
    (case map_of responses (humanLabel fld) of
       Some r \<Rightarrow> Some r
     | None \<Rightarrow> (case map_of responses (f_name fld) of
                  Some r \<Rightarrow> Some r
                | None \<Rightarrow> map_of responses (f_id fld)))"

text \<open>The loop's variables; \<open>writes\<close> lists the calls \<^verbatim>\<open>fillField(field.element, value)\<close> made.\<close>

record fill_state =
  successCount :: nat
  errorCount :: nat
  writes :: "(field \<times> jsval) list"

definition fillStep ::
  "(field \<Rightarrow> jsval \<Rightarrow> bool) \<Rightarrow> (string \<times> fill_entry) list \<Rightarrow> fill_state \<Rightarrow> field \<Rightarrow> fill_state" where
  "fillStep w responses st fld =
    (case lookupResponse responses fld of
       Some r \<Rightarrow>
         (if fd_normalized r \<noteq> Undefined then
            (let st1 = st\<lparr>writes := writes st @ [(fld, fd_normalized r)]\<rparr>
             in if w fld (fd_normalized r)
                then st1\<lparr>successCount := successCount st1 + 1\<rparr>
                else st1\<lparr>errorCount := errorCount st1 + 1\<rparr>)
          else st\<lparr>errorCount := errorCount st + 1\<rparr>)
     | None \<Rightarrow> st\<lparr>errorCount := errorCount st + 1\<rparr>)"

definition fillLoop ::
  "(field \<Rightarrow> jsval \<Rightarrow> bool) \<Rightarrow> field list \<Rightarrow> (string \<times> fill_entry) list \<Rightarrow> fill_state" where
  "fillLoop w flds responses =
     foldl (fillStep w responses) \<lparr>successCount = 0, errorCount = 0, writes = []\<rparr> flds"

definition FormAnalyzer_fillForm ::
  "(field \<Rightarrow> jsval \<Rightarrow> bool) \<Rightarrow> field list \<Rightarrow> (string \<times> fill_entry) list \<Rightarrow> bool" where
  "FormAnalyzer_fillForm w flds responses = (errorCount (fillLoop w flds responses) = 0)"

subsection \<open>fillForm (background)\<close>

definition fillData_of :: "(string \<times> response) list \<Rightarrow> (string \<times> fill_entry) list" where
  "fillData_of rs = map (\<lambda>(label, r). (label,
      \<lparr>fd_normalized = normalized r, fd_fieldName = fieldName r, fd_fieldId = fieldId r\<rparr>)) rs"

definition fillForm :: "env \<Rightarrow> session \<Rightarrow> session" where
  "fillForm e s =
    (let s1 = setState FILLING s;
         s2 = notifyPopup (STATUS_UPDATE ''Filling form with validated responses...'') s1
     in if \<not> active_tab e
        then notifyPopup (ERROR_MSG (''Failed to fill form: '' @ ''No active tab found'')) s2
        else
          (let fillData = fillData_of (fieldResponses s2);
               s3 = emit (SendMessage_FILL_FORM fillData) s2
           in case fill_channel e of
                Some m \<Rightarrow> notifyPopup (ERROR_MSG (''Failed to fill form: '' @ m)) s3
              | None \<Rightarrow>
                  (if FormAnalyzer_fillForm (writer e) (content_fields e) fillData
                   then notifyPopup FORM_FILLED (setState COMPLETED s3)
                   else notifyPopup
                          (ERROR_MSG (''Failed to fill form: '' @ ''Form filling failed'')) s3)))"

subsection \<open>validateResponses and startCorrection\<close>

text \<open>The message of the \<^verbatim>\<open>TypeError\<close> raised by reading a member of \<^verbatim>\<open>undefined\<close>.\<close>

definition TypeError_reading :: "string \<Rightarrow> string" where
  "TypeError_reading member =
     ''Cannot read properties of undefined (reading '' @ [CHR 0x27] @ member @ [CHR 0x27] @ '')''"

text \<open>The body of the merge loop over \<^verbatim>\<open>Object.entries(validationResult.results)\<close>.\<close>

definition mergeStep :: "(string \<times> response) list \<Rightarrow> string \<times> vresult \<Rightarrow> (string \<times> response) list" where
  "mergeStep rs entry =
    (case entry of (fName, result) \<Rightarrow>
       (case map_of rs fName of
          Some a \<Rightarrow> AList.update fName
            (a\<lparr>normalized := js_or (r_normalized result) (r_original result),
               valid := r_valid result,
               confidence := r_confidence result,
               reason := r_reason result,
               suggestions := r_suggestions result\<rparr>) rs
        | None \<Rightarrow> rs))"

definition mergeResults :: "(string \<times> vresult) list \<Rightarrow> (string \<times> response) list \<Rightarrow> (string \<times> response) list" where
  "mergeResults res rs = foldl mergeStep rs res"

text \<open>The body of the loop of \<^verbatim>\<open>startCorrection\<close> that collects \<^verbatim>\<open>invalidFields\<close>.\<close>

definition invalidStep ::
  "field list \<Rightarrow> (field \<times> jsval \<times> jsval) list \<Rightarrow> string \<times> vresult \<Rightarrow> (field \<times> jsval \<times> jsval) list" where
  "invalidStep flds acc entry =
    (case entry of (fName, result) \<Rightarrow>
       (if \<not> truthy (r_valid result) then
          (case find (\<lambda>f. humanLabel f = fName) flds of
             Some fld \<Rightarrow> acc @ [(fld, r_reason result, r_suggestions result)]
           | None \<Rightarrow> acc)
        else acc))"

definition findInvalid :: "field list \<Rightarrow> (string \<times> vresult) list \<Rightarrow> (field \<times> jsval \<times> jsval) list" where
  "findInvalid flds res = foldl (invalidStep flds) [] res"

text \<open>\<^verbatim>\<open>startCorrection(validationResult)\<close>. With no invalid field found,
  \<^verbatim>\<open>invalidFields[0].field\<close> throws. Otherwise the method ends with \<^verbatim>\<open>askCurrentQuestion()\<close>,
  which finds the state \<open>CORRECTING\<close> and the field at the index just set, so it asks that
  field: the call is written as \<open>askQuestion\<close> here, and lemma
  \<open>startCorrection_asks_current\<close> shows that \<open>askCurrentQuestion\<close> computes the same.\<close>

definition startCorrection :: "env \<Rightarrow> validation_result \<Rightarrow> session \<Rightarrow> (session \<times> string) + session" where
  "startCorrection e vr s =
    (let s1 = setState CORRECTING s;
         invalidFields = findInvalid (detectedFields s1) (results vr)
     in case invalidFields of
          [] \<Rightarrow> Inl (s1, TypeError_reading ''field'')
        | first # rest \<Rightarrow>
            (let s2 = s1\<lparr>currentFieldIndex := indexOf (detectedFields s1) (fst first)\<rparr>
             in Inr (askQuestion e (fst first) s2)))"

text \<open>\<^verbatim>\<open>JSON.stringify\<close> leaves out a member whose value is \<^verbatim>\<open>undefined\<close>.\<close>

definition json_members :: "(string \<times> jsval) list \<Rightarrow> (string \<times> jsval) list" where
  "json_members kvs = filter (\<lambda>(k, v). v \<noteq> Undefined) kvs"

text \<open>The body of the request to \<^verbatim>\<open>/validate\<close>: the loop over
  \<^verbatim>\<open>Object.entries(this.fieldResponses)\<close> fills the objects \<^verbatim>\<open>fields\<close> and \<^verbatim>\<open>fieldTypes\<close>, and the
  two are sent as members \<^verbatim>\<open>fields\<close> and \<^verbatim>\<open>field_types\<close> of a JSON text.\<close>

definition validate_body ::
  "(string \<times> response) list \<Rightarrow> (string \<times> jsval) list \<times> (string \<times> string) list" where
  "validate_body rs =
    (let reqFields = foldl (\<lambda>obj (label, r). obj_set label (original r) obj) [] rs;
         reqFieldTypes = foldl (\<lambda>obj (label, r). obj_set label (fieldType r) obj) [] rs
     in (json_members reqFields, reqFieldTypes))"

text \<open>\<^verbatim>\<open>validateResponses\<close> up to its \<^verbatim>\<open>await fetch\<close>: the request is on its way.\<close>

definition validateResponses_request :: "session \<Rightarrow> session" where
  "validateResponses_request s =
    (let s1 = setState VALIDATING s;
         s2 = s1\<lparr>retryCount := 0\<rparr>;
         s3 = notifyPopup VALIDATION_STARTED s2;
         body = validate_body (fieldResponses s3)
     in emit (POST_validate (fst body) (snd body)) s3)"

definition validateResponses :: "env \<Rightarrow> session \<Rightarrow> session" where
  "validateResponses e s =
    (let s4 = validateResponses_request s
     in case validation e of
          Inl m \<Rightarrow> fillForm e (notifyPopup (ERROR_MSG (''Validation failed: '' @ m)) s4)
        | Inr validationResult \<Rightarrow>
            (let s5 = s4\<lparr>fieldResponses :=
                        mergeResults (results validationResult) (fieldResponses s4)\<rparr>;
                 s6 = notifyPopup (VALIDATION_COMPLETED (all_valid validationResult)
                        (invalid_count validationResult)) s5
             in if truthy (all_valid validationResult) then fillForm e s6
                else (case startCorrection e validationResult s6 of
                        Inr s7 \<Rightarrow> s7
                      | Inl (s7, m) \<Rightarrow>
                          fillForm e (notifyPopup (ERROR_MSG (''Validation failed: '' @ m)) s7))))"

subsection \<open>askCurrentQuestion, processVoiceResponse\<close>

definition askCurrentQuestion :: "env \<Rightarrow> session \<Rightarrow> session" where
  "askCurrentQuestion e s =
    (if currentState s \<noteq> QUESTIONING \<and> currentState s \<noteq> CORRECTING then s
     else (case at_index (detectedFields s) (currentFieldIndex s) of
             None \<Rightarrow> validateResponses e s
           | Some fld \<Rightarrow> askQuestion e fld s))"

text \<open>The statements of \<^verbatim>\<open>processVoiceResponse\<close> from \<^verbatim>\<open>// Store the response\<close> to
  \<^verbatim>\<open>this.currentFieldIndex++\<close>, for a defined \<^verbatim>\<open>currentField\<close>. The assignment replaces
  the whole entry, so the members a validation merged into an earlier entry are gone.\<close>

definition storeAnswer :: "field \<Rightarrow> jsval \<Rightarrow> session \<Rightarrow> session" where
  "storeAnswer currentField transcribedText s =
    (let s1 = s\<lparr>fieldResponses := obj_set (humanLabel currentField)
                 \<lparr>original = transcribedText, normalized = transcribedText,
                  fieldType = f_type currentField, fieldName = f_name currentField,
                  fieldId = f_id currentField, valid = Undefined, confidence = Undefined,
                  reason = Undefined, suggestions = Undefined\<rparr> (fieldResponses s)\<rparr>;
         s2 = notifyPopup (ANSWER_RECEIVED (currentFieldIndex s1 + 1)
                (length (detectedFields s1)) (humanLabel currentField) transcribedText) s1
     in s2\<lparr>currentFieldIndex := currentFieldIndex s2 + 1\<rparr>)"

text \<open>The \<^verbatim>\<open>try\<close> block of \<^verbatim>\<open>processVoiceResponse\<close> after the transcription: with no field
  at the cursor, \<^verbatim>\<open>currentField.humanLabel\<close> throws.\<close>

definition storeResponse :: "env \<Rightarrow> jsval \<Rightarrow> session \<Rightarrow> (session \<times> string) + session" where
  "storeResponse e transcribedText s =
    (case at_index (detectedFields s) (currentFieldIndex s) of
       None \<Rightarrow> Inl (s, TypeError_reading ''humanLabel'')
     | Some currentField \<Rightarrow>
         (let s3 = storeAnswer currentField transcribedText s
          in Inr (if currentFieldIndex s3 < int (length (detectedFields s3))
                  then emit (SetTimeout Timer_askCurrentQuestion 1000) s3
                  else validateResponses e s3)))"

text \<open>The \<^verbatim>\<open>catch\<close> block of \<^verbatim>\<open>processVoiceResponse\<close>.\<close>

definition retryQuestion :: "string \<Rightarrow> session \<Rightarrow> session" where
  "retryQuestion m s =
    (let s1 = notifyPopup (ERROR_MSG (''Failed to process voice response: '' @ m)) s;
         s2 = s1\<lparr>retryCount := retryCount s1 + 1\<rparr>
     in if retryCount s2 \<le> maxRetries
        then emit (SetTimeout Timer_askCurrentQuestion 2000) s2
        else setState ERROR s2)"

definition processVoiceResponse :: "env \<Rightarrow> session \<Rightarrow> session" where
  "processVoiceResponse e s =
    (case (case transcription e of
             Inl m \<Rightarrow> Inl (s, m)
           | Inr transcribedText \<Rightarrow> storeResponse e transcribedText s) of
       Inr s' \<Rightarrow> s'
     | Inl (s', m) \<Rightarrow> retryQuestion m s')"

subsection \<open>startConversation, startProcessing, stopProcessing, clearData\<close>

definition startConversation :: "env \<Rightarrow> session \<Rightarrow> session" where
  "startConversation e s =
    (let s1 = setState QUESTIONING s;
         s2 = s1\<lparr>currentFieldIndex := 0\<rparr>;
         s3 = s2\<lparr>fieldResponses := []\<rparr>;
         s4 = notifyPopup (CONVERSATION_STARTED (length (detectedFields s3))) s3
     in askCurrentQuestion e s4)"

definition startProcessing :: "env \<Rightarrow> session \<Rightarrow> (session \<times> string) + session" where
  "startProcessing e s =
    (let s1 = setState ANALYZING s;
         s2 = notifyPopup (STATUS_UPDATE ''Analyzing webpage for form fields...'') s1;
         s3 = emit SendMessage_ANALYZE_PAGE s2
     in case analysis e of
          AnalysisThrows m \<Rightarrow> Inl (s3, ''Failed to analyze webpage: '' @ m)
        | AnalysisFailed err \<Rightarrow>
            Inl (s3, ''Failed to analyze webpage: '' @
                   (case err of
                      Some m \<Rightarrow> if m \<noteq> [] then m else ''Failed to analyze page''
                    | None \<Rightarrow> ''Failed to analyze page''))
        | AnalysisOk flds \<Rightarrow>
            (let s4 = s3\<lparr>detectedFields := flds\<rparr>
             in if length (detectedFields s4) = 0
                then Inl (s4, ''Failed to analyze webpage: '' @
                                ''No form fields detected on the page'')
                else Inr (startConversation e
                       (notifyPopup (FIELDS_DETECTED_MSG
                          (map (\<lambda>f. (humanLabel f, f_type f, selector f)) (detectedFields s4)))
                          s4))))"

definition stopProcessing :: "session \<Rightarrow> session" where
  "stopProcessing s =
    (let s1 = setState IDLE s;
         s2 = s1\<lparr>currentFieldIndex := 0\<rparr>;
         s3 = s2\<lparr>fieldResponses := []\<rparr>;
         s4 = s3\<lparr>retryCount := 0\<rparr>
     in notifyPopup (STATUS_UPDATE ''Process stopped'') s4)"

definition clearData :: "session \<Rightarrow> session" where
  "clearData s =
    (let s1 = setState IDLE s;
         s2 = s1\<lparr>detectedFields := []\<rparr>;
         s3 = s2\<lparr>fieldResponses := []\<rparr>;
         s4 = s3\<lparr>currentFieldIndex := 0\<rparr>
     in s4\<lparr>retryCount := 0\<rparr>)"

subsection \<open>The event loop\<close>

datatype message =
    START_PROCESSING
  | STOP_PROCESSING
  | CLEAR_DATA
  | VOICE_RECORDING_COMPLETE
  | FIELDS_DETECTED "field list"

text \<open>\<^verbatim>\<open>handleMessage\<close>; its \<^verbatim>\<open>catch\<close> sets the state \<open>ERROR\<close> and notifies the popup.\<close>

definition handleMessage :: "env \<Rightarrow> message \<Rightarrow> session \<Rightarrow> session" where
  "handleMessage e msg s =
    (case msg of
       START_PROCESSING \<Rightarrow>
         (case startProcessing e s of
            Inr s' \<Rightarrow> s'
          | Inl (s', m) \<Rightarrow> notifyPopup (ERROR_MSG m) (setState ERROR s'))
     | STOP_PROCESSING \<Rightarrow> stopProcessing s
     | CLEAR_DATA \<Rightarrow> clearData s
     | VOICE_RECORDING_COMPLETE \<Rightarrow> processVoiceResponse e s
     | FIELDS_DETECTED flds \<Rightarrow> startConversation e (s\<lparr>detectedFields := flds\<rparr>))"

text \<open>What the event loop can run next: a message to \<^verbatim>\<open>handleMessage\<close>, the callback of
  the timer that re-enters \<^verbatim>\<open>askCurrentQuestion\<close>, or the completion of a recording, which
  reaches \<^verbatim>\<open>processVoiceResponse\<close> from \<^verbatim>\<open>stopVoiceRecording\<close> or from the
  \<^verbatim>\<open>voice-recording\<close> port.\<close>

datatype event = Message message | AskTimerFired | RecordingCompleted

definition step :: "session \<Rightarrow> env \<times> event \<Rightarrow> session" where
  "step s x =
    (case x of (e, ev) \<Rightarrow>
       (case ev of
          Message msg \<Rightarrow> handleMessage e msg s
        | AskTimerFired \<Rightarrow> askCurrentQuestion e s
        | RecordingCompleted \<Rightarrow> processVoiceResponse e s))"

definition run :: "(env \<times> event) list \<Rightarrow> session \<Rightarrow> session" where
  "run xs s = foldl step s xs"

subsection \<open>The methods between their awaits\<close>

text \<open>An \<^verbatim>\<open>async\<close> method gives up control where it awaits a collaborator: \<^verbatim>\<open>fetch\<close> and
  \<^verbatim>\<open>response.json()\<close>, \<^verbatim>\<open>chrome.tabs.query\<close>, \<^verbatim>\<open>chrome.tabs.sendMessage\<close>. Until the reply
  comes, the service worker delivers other messages and fires timers, and these run against
  the same \<^verbatim>\<open>this\<close>. (An \<^verbatim>\<open>await\<close> of one of the object's own methods runs the callee at once
  and resumes the caller before any other message or timer.) The definitions of this
  subsection are the stretches of the methods between two such awaits; a stretch that ends a
  method goes on with the rest of its callers. \<^verbatim>\<open>fetch\<close> and the \<^verbatim>\<open>response.json()\<close> that
  follows it are taken as one reply, since the session is not touched in between.\<close>

text \<open>\<^verbatim>\<open>askCurrentQuestion\<close> after its two guards, up to the \<^verbatim>\<open>fetch\<close> of \<^verbatim>\<open>speakQuestion\<close>.\<close>

definition askCurrentQuestion_ask :: "env \<Rightarrow> field \<Rightarrow> session \<Rightarrow> session" where
  "askCurrentQuestion_ask e fld s =
    (let question = generateQuestion fld (math_random e);
         s1 = notifyPopup (QUESTION_ASKED (currentFieldIndex s + 1) (length (detectedFields s))
                question (humanLabel fld)) s
     in emit (POST_tts question) s1)"

text \<open>From the reply of \<^verbatim>\<open>/tts\<close> to the end of \<^verbatim>\<open>askCurrentQuestion\<close>; \<open>text\<close> is the
  question that \<^verbatim>\<open>speakQuestion\<close> was called with.\<close>

definition speakQuestion_reply :: "env \<Rightarrow> jsval \<Rightarrow> session \<Rightarrow> session" where
  "speakQuestion_reply e text s =
    (let s1 = (if tts_ok e then s else notifyPopup (TTS_FAILED text) s)
     in emit (SetTimeout Timer_startVoiceRecording 1000) s1)"

text \<open>\<^verbatim>\<open>askCurrentQuestion\<close> from its entry to its first await.\<close>

definition askCurrentQuestion_sync :: "env \<Rightarrow> session \<Rightarrow> session" where
  "askCurrentQuestion_sync e s =
    (if currentState s \<noteq> QUESTIONING \<and> currentState s \<noteq> CORRECTING then s
     else (case at_index (detectedFields s) (currentFieldIndex s) of
             None \<Rightarrow> validateResponses_request s
           | Some fld \<Rightarrow> askCurrentQuestion_ask e fld s))"

text \<open>\<^verbatim>\<open>fillForm\<close>: up to \<^verbatim>\<open>chrome.tabs.query\<close>; from the tab to \<^verbatim>\<open>chrome.tabs.sendMessage\<close>,
  where \<^verbatim>\<open>fillData\<close> is built from the answers as they are then; from the reply of the content
  script to the end.\<close>

definition fillForm_sync :: "session \<Rightarrow> session" where
  "fillForm_sync s =
    (let s1 = setState FILLING s
     in notifyPopup (STATUS_UPDATE ''Filling form with validated responses...'') s1)"

definition fillForm_tab :: "env \<Rightarrow> session \<Rightarrow> session" where
  "fillForm_tab e s =
    (if \<not> active_tab e
     then notifyPopup (ERROR_MSG (''Failed to fill form: '' @ ''No active tab found'')) s
     else emit (SendMessage_FILL_FORM (fillData_of (fieldResponses s))) s)"

definition fillForm_reply :: "env \<Rightarrow> (string \<times> fill_entry) list \<Rightarrow> session \<Rightarrow> session" where
  "fillForm_reply e fillData s =
    (case fill_channel e of
       Some m \<Rightarrow> notifyPopup (ERROR_MSG (''Failed to fill form: '' @ m)) s
     | None \<Rightarrow>
         (if FormAnalyzer_fillForm (writer e) (content_fields e) fillData
          then notifyPopup FORM_FILLED (setState COMPLETED s)
          else notifyPopup (ERROR_MSG (''Failed to fill form: '' @ ''Form filling failed'')) s))"

text \<open>\<^verbatim>\<open>startCorrection\<close>, which has no await of its own, up to the first await of the
  \<^verbatim>\<open>askCurrentQuestion\<close> it ends with.\<close>

definition startCorrection_sync ::
  "env \<Rightarrow> validation_result \<Rightarrow> session \<Rightarrow> (session \<times> string) + session" where
  "startCorrection_sync e vr s =
    (let s1 = setState CORRECTING s;
         invalidFields = findInvalid (detectedFields s1) (results vr)
     in case invalidFields of
          [] \<Rightarrow> Inl (s1, TypeError_reading ''field'')
        | first # rest \<Rightarrow>
            (let s2 = s1\<lparr>currentFieldIndex := indexOf (detectedFields s1) (fst first)\<rparr>
             in Inr (askCurrentQuestion_sync e s2)))"

text \<open>\<^verbatim>\<open>validateResponses\<close> from the reply of \<^verbatim>\<open>/validate\<close> on: the merge goes into the answers
  that \<^verbatim>\<open>this.fieldResponses\<close> holds when the reply arrives.\<close>

definition validateResponses_reply :: "env \<Rightarrow> session \<Rightarrow> session" where
  "validateResponses_reply e s =
    (case validation e of
       Inl m \<Rightarrow> fillForm_sync (notifyPopup (ERROR_MSG (''Validation failed: '' @ m)) s)
     | Inr validationResult \<Rightarrow>
         (let s5 = s\<lparr>fieldResponses :=
                     mergeResults (results validationResult) (fieldResponses s)\<rparr>;
              s6 = notifyPopup (VALIDATION_COMPLETED (all_valid validationResult)
                     (invalid_count validationResult)) s5
          in if truthy (all_valid validationResult) then fillForm_sync s6
             else (case startCorrection_sync e validationResult s6 of
                     Inr s7 \<Rightarrow> s7
                   | Inl (s7, m) \<Rightarrow>
                       fillForm_sync (notifyPopup (ERROR_MSG (''Validation failed: '' @ m)) s7))))"










subsection \<open>Observations on a session\<close>

text \<open>The labels of the questions asked, in the order of the \<^verbatim>\<open>QUESTION_ASKED\<close>
  notifications.\<close>

definition asked :: "effect list \<Rightarrow> string list" where
  "asked xs = concat (map (\<lambda>x. case x of Notify (QUESTION_ASKED c t q l) \<Rightarrow> [l] | _ \<Rightarrow> []) xs)"

text \<open>What a scenario is compared on: the state, the cursor, the retry count, the labels
  that have an answer and the labels of the questions asked.\<close>

definition summary :: "session \<Rightarrow> state \<times> int \<times> nat \<times> string list \<times> string list" where
  "summary s = (currentState s, currentFieldIndex s, retryCount s,
     map fst (fieldResponses s), asked (effects s))"

text \<open>The payloads of the \<^verbatim>\<open>POST /validate\<close> requests made, in order.\<close>

definition validate_requests ::
  "effect list \<Rightarrow> ((string \<times> jsval) list \<times> (string \<times> string) list) list" where
  "validate_requests xs = concat (map (\<lambda>x. case x of POST_validate a b \<Rightarrow> [(a, b)] | _ \<Rightarrow> []) xs)"


text \<open>A field counts as filled when a response with a defined value is found for it and the
  writer accepts the value; the failed fields are the others.\<close>

definition fieldFilled ::
  "(field \<Rightarrow> jsval \<Rightarrow> bool) \<Rightarrow> (string \<times> fill_entry) list \<Rightarrow> field \<Rightarrow> bool" where
  "fieldFilled w responses fld =
    (case lookupResponse responses fld of
       Some r \<Rightarrow> fd_normalized r \<noteq> Undefined \<and> w fld (fd_normalized r)
     | None \<Rightarrow> False)"

definition failedFields ::
  "(field \<Rightarrow> jsval \<Rightarrow> bool) \<Rightarrow> field list \<Rightarrow> (string \<times> fill_entry) list \<Rightarrow> field list" where
  "failedFields w flds responses = filter (\<lambda>fld. \<not> fieldFilled w responses fld) flds"

text \<open>A run in which no event is handled in the state \<open>ERROR\<close>.\<close>

fun error_free :: "(env \<times> event) list \<Rightarrow> session \<Rightarrow> bool" where
  "error_free [] s = True"
| "error_free (x # xs) s = (currentState s \<noteq> ERROR \<and> error_free xs (step s x))"





text \<open>What one occurrence does to the requests: none is added, or one is added, made of the
  answers as they are afterwards, and no field is left at the cursor.\<close>

definition request_step :: "session \<Rightarrow> session \<Rightarrow> bool" where
  "request_step s s' =
    (validate_requests (effects s') = validate_requests (effects s) \<or>
     validate_requests (effects s') =
       validate_requests (effects s) @ [validate_body (fieldResponses s')] \<and>
     at_index (detectedFields s') (currentFieldIndex s') = None)"


subsection \<open>Example collaborators and runs\<close>

definition email_field :: field where
  "email_field = \<lparr>selector = ''#email'', f_type = ''email'', f_id = ''email'',
     f_name = ''email'', humanLabel = ''Email''\<rparr>"

definition name_field :: field where
  "name_field = \<lparr>selector = ''#name'', f_type = ''text'', f_id = ''name'',
     f_name = ''name'', humanLabel = ''Name''\<rparr>"



definition writer_accepts :: "field \<Rightarrow> jsval \<Rightarrow> bool" where
  "writer_accepts fld v = True"

definition writer_rejects :: "field \<Rightarrow> jsval \<Rightarrow> bool" where
  "writer_rejects fld v = False"

definition result_valid :: "string \<Rightarrow> vresult" where
  "result_valid v = \<lparr>r_normalized = Str v, r_original = Undefined, r_valid = Bool True,
     r_confidence = Num 1, r_reason = Null, r_suggestions = Arr []\<rparr>"

definition result_invalid :: "string \<Rightarrow> string \<Rightarrow> vresult" where
  "result_invalid v why = \<lparr>r_normalized = Str v, r_original = Undefined, r_valid = Bool False,
     r_confidence = Num (1 / 2), r_reason = Str why, r_suggestions = Arr []\<rparr>"

text \<open>A result whose \<^verbatim>\<open>normalized\<close> is the empty string.\<close>

definition result_blank :: vresult where
  "result_blank = \<lparr>r_normalized = Str [], r_original = Undefined, r_valid = Bool False,
     r_confidence = Num 0, r_reason = Str ''empty'', r_suggestions = Arr []\<rparr>"

definition reply_all_valid :: validation_result where
  "reply_all_valid = \<lparr>results = [(''Email'', result_valid ''john@example.com''),
       (''Name'', result_valid ''Bob'')],
     all_valid = Bool True, invalid_count = Num 0\<rparr>"

definition reply_email_invalid :: validation_result where
  "reply_email_invalid = \<lparr>results = [(''Email'', result_invalid ''john at example'' ''missing @''),
       (''Name'', result_valid ''Bob'')],
     all_valid = Bool False, invalid_count = Num 1\<rparr>"

definition reply_name_only :: validation_result where
  "reply_name_only = \<lparr>results = [(''Name'', result_valid ''Bob'')],
     all_valid = Bool True, invalid_count = Num 0\<rparr>"

definition reply_email_blank :: validation_result where
  "reply_email_blank = \<lparr>results = [(''Email'', result_blank), (''Name'', result_valid ''Bob'')],
     all_valid = Bool False, invalid_count = Num 1\<rparr>"

definition env_base :: env where
  "env_base = \<lparr>math_random = 0, tts_ok = True, transcription = Inr (Str ''john at example''),
     validation = Inr reply_all_valid, analysis = AnalysisOk [email_field, name_field],
     active_tab = True, fill_channel = None, content_fields = [email_field, name_field],
     writer = writer_accepts\<rparr>"

definition heard :: "string \<Rightarrow> env" where
  "heard t = env_base\<lparr>transcription := Inr (Str t)\<rparr>"

definition unheard :: env where
  "unheard = env_base\<lparr>transcription := Inl ''Transcription failed: 500''\<rparr>"

definition judged :: "string \<Rightarrow> validation_result \<Rightarrow> env" where
  "judged t vr = env_base\<lparr>transcription := Inr (Str t), validation := Inr vr\<rparr>"

text \<open>Two fields are detected, both are answered; the second answer starts the validation,
  whose reply is the argument.\<close>

definition first_pass :: "validation_result \<Rightarrow> (env \<times> event) list" where
  "first_pass vr =
     [(env_base, Message START_PROCESSING),
      (heard ''john at example'', RecordingCompleted),
      (env_base, AskTimerFired),
      (judged ''Bob'' vr, RecordingCompleted)]"

text \<open>The correction pass after \<open>first_pass reply_email_invalid\<close>: the Email question is
  answered again, and the timer set by that answer fires.\<close>

definition correction_pass :: "(env \<times> event) list" where
  "correction_pass =
     [(heard ''john@example.com'', RecordingCompleted),
      (env_base, AskTimerFired)]"

text \<open>A start, then a stop while the first question's recording is outstanding.\<close>

definition started_then_stopped :: "(env \<times> event) list" where
  "started_then_stopped = [(env_base, Message START_PROCESSING), (env_base, Message STOP_PROCESSING)]"

definition env_single :: env where
  "env_single = env_base\<lparr>analysis := AnalysisOk [email_field], content_fields := [email_field]\<rparr>"

definition single_started_then_stopped :: "(env \<times> event) list" where
  "single_started_then_stopped =
     [(env_single, Message START_PROCESSING), (env_single, Message STOP_PROCESSING)]"



text \<open>The first pass with a writer that rejects every value.\<close>

definition rejected_run :: "(env \<times> event) list" where
  "rejected_run =
     [(env_base, Message START_PROCESSING),
      (heard ''john at example'', RecordingCompleted),
      (env_base, AskTimerFired),
      ((judged ''Bob'' reply_all_valid)\<lparr>writer := writer_rejects\<rparr>, RecordingCompleted)]"

text \<open>Three transcription failures in a row on the first question; after each the timer
  fires and the question is asked again.\<close>

definition three_failures :: "(env \<times> event) list" where
  "three_failures =
     [(env_base, Message START_PROCESSING),
      (unheard, RecordingCompleted), (env_base, AskTimerFired),
      (unheard, RecordingCompleted), (env_base, AskTimerFired),
      (unheard, RecordingCompleted), (env_base, AskTimerFired)]"

text \<open>A start and one transcription failure.\<close>

definition one_failure :: "(env \<times> event) list" where
  "one_failure = [(env_base, Message START_PROCESSING), (unheard, RecordingCompleted)]"

text \<open>Two failures on the first question, then its answer; then two failures on the second
  question.\<close>

definition two_and_two_failures :: "(env \<times> event) list" where
  "two_and_two_failures =
     [(env_base, Message START_PROCESSING),
      (unheard, RecordingCompleted), (env_base, AskTimerFired),
      (unheard, RecordingCompleted), (env_base, AskTimerFired),
      (heard ''john at example'', RecordingCompleted), (env_base, AskTimerFired),
      (unheard, RecordingCompleted), (env_base, AskTimerFired),
      (unheard, RecordingCompleted)]"








section \<open>Properties\<close>

subsection \<open>Frame lemmas\<close>

lemmas small_defs = setState_def emit_def notifyPopup_def speakQuestion_def askQuestion_def Let_def

lemma fillForm_frame:
  "detectedFields (fillForm e s) = detectedFields s"
  "fieldResponses (fillForm e s) = fieldResponses s"
  "currentFieldIndex (fillForm e s) = currentFieldIndex s"
  "retryCount (fillForm e s) = retryCount s"
  by (simp_all add: fillForm_def small_defs split: option.splits)

lemma askQuestion_frame:
  "currentState (askQuestion e f s) = currentState s"
  "detectedFields (askQuestion e f s) = detectedFields s"
  "fieldResponses (askQuestion e f s) = fieldResponses s"
  "currentFieldIndex (askQuestion e f s) = currentFieldIndex s"
  "retryCount (askQuestion e f s) = retryCount s"
  by (simp_all add: small_defs)

lemma startCorrection_frame:
  assumes "startCorrection e vr s = Inr s'"
  shows "detectedFields s' = detectedFields s" "fieldResponses s' = fieldResponses s"
    "retryCount s' = retryCount s" "currentState s' = CORRECTING"
  using assms by (auto simp: startCorrection_def small_defs split: list.splits)

lemma startCorrection_frame_Inl:
  assumes "startCorrection e vr s = Inl (s', m)"
  shows "detectedFields s' = detectedFields s" "fieldResponses s' = fieldResponses s"
    "retryCount s' = retryCount s" "currentFieldIndex s' = currentFieldIndex s"
  using assms by (auto simp: startCorrection_def small_defs split: list.splits)

lemma validateResponses_request_frame:
  "currentState (validateResponses_request s) = VALIDATING"
  "detectedFields (validateResponses_request s) = detectedFields s"
  "fieldResponses (validateResponses_request s) = fieldResponses s"
  "currentFieldIndex (validateResponses_request s) = currentFieldIndex s"
  "retryCount (validateResponses_request s) = 0"
  by (simp_all add: validateResponses_request_def small_defs)

lemma validateResponses_frame:
  "detectedFields (validateResponses e s) = detectedFields s"
  "retryCount (validateResponses e s) = 0"
  by (auto simp: validateResponses_def Let_def setState_def emit_def notifyPopup_def fillForm_frame
      validateResponses_request_frame
      split: sum.splits dest: startCorrection_frame startCorrection_frame_Inl)

lemma validateResponses_responses:
  "fieldResponses (validateResponses e s) =
     (case validation e of
        Inl m \<Rightarrow> fieldResponses s
      | Inr vr \<Rightarrow> mergeResults (results vr) (fieldResponses s))"
  by (auto simp: validateResponses_def Let_def setState_def emit_def notifyPopup_def fillForm_frame
      validateResponses_request_frame
      split: sum.splits dest: startCorrection_frame startCorrection_frame_Inl)

subsection \<open>The merge of validation results\<close>

lemma mergeStep_other:
  "k \<noteq> fst entry \<Longrightarrow> map_of (mergeStep rs entry) k = map_of rs k"
  by (cases entry) (simp add: mergeStep_def update_conv' split: option.splits)

lemma mergeResults_other:
  "k \<notin> fst ` set res \<Longrightarrow> map_of (mergeResults res rs) k = map_of rs k"
  unfolding mergeResults_def
  by (induction res arbitrary: rs) (auto simp: mergeStep_other)

lemma mergeStep_hit:
  "map_of rs k = Some a \<Longrightarrow> map_of (mergeStep rs (k, r)) k =
     Some (a\<lparr>normalized := js_or (r_normalized r) (r_original r), valid := r_valid r,
       confidence := r_confidence r, reason := r_reason r, suggestions := r_suggestions r\<rparr>)"
  by (simp add: mergeStep_def update_conv')

lemma mergeResults_hit:
  assumes "distinct (map fst res)" "(k, r) \<in> set res" "map_of rs k = Some a"
  shows "map_of (mergeResults res rs) k =
     Some (a\<lparr>normalized := js_or (r_normalized r) (r_original r), valid := r_valid r,
       confidence := r_confidence r, reason := r_reason r, suggestions := r_suggestions r\<rparr>)"
proof -
  from assms(2) obtain pre post where res: "res = pre @ (k, r) # post"
    by (auto simp: in_set_conv_decomp)
  with assms(1) have pre: "k \<notin> fst ` set pre" and post: "k \<notin> fst ` set post"
    by auto
  have "map_of (mergeResults pre rs) k = Some a"
    using pre assms(3) by (simp add: mergeResults_other)
  then have "map_of (mergeStep (mergeResults pre rs) (k, r)) k =
     Some (a\<lparr>normalized := js_or (r_normalized r) (r_original r), valid := r_valid r,
       confidence := r_confidence r, reason := r_reason r, suggestions := r_suggestions r\<rparr>)"
    by (rule mergeStep_hit)
  moreover have "mergeResults res rs = mergeResults post (mergeStep (mergeResults pre rs) (k, r))"
    unfolding res mergeResults_def by simp
  ultimately show ?thesis
    using post by (simp add: mergeResults_other)
qed

subsection \<open>The question generator\<close>

lemma spacing_pos: "0 < q \<Longrightarrow> 0 < spacing n x q"
  by (induction n arbitrary: x q) simp_all

lemma spacing_bound:
  "0 \<le> q \<Longrightarrow> 0 \<le> x \<Longrightarrow> spacing n x q \<le> q * x / 2 + q / 2 ^ n"
proof (induction n arbitrary: x q)
  case 0
  then show ?case by simp
next
  case (Suc n)
  show ?case
  proof (cases "2 \<le> x")
    case True
    have "q * 1 \<le> q * (x / 2)" using True Suc.prems by (intro mult_left_mono) simp_all
    moreover have "0 \<le> q / 2 ^ Suc n" using Suc.prems by simp
    ultimately show ?thesis using True by simp
  next
    case False
    have "spacing n (2 * x) (q / 2) \<le> (q / 2) * (2 * x) / 2 + (q / 2) / 2 ^ n"
      using Suc.prems by (intro Suc.IH) simp_all
    with False show ?thesis by simp
  qed
qed

lemma round_half_even_upper: "of_int (round_half_even z) \<le> z + 1 / 2"
proof -
  have f: "of_int \<lfloor>z\<rfloor> \<le> z" by simp
  show ?thesis
    by (cases "z - of_int \<lfloor>z\<rfloor> < 1 / 2"; cases "1 / 2 < z - of_int \<lfloor>z\<rfloor>";
        insert f; simp add: round_half_even_def Let_def; linarith)
qed

lemma round_half_even_nonneg: "0 \<le> z \<Longrightarrow> 0 \<le> round_half_even z"
  by (auto simp: round_half_even_def Let_def)

lemma round_double_nonneg: "0 \<le> x \<Longrightarrow> 0 \<le> round_double x"
proof -
  assume x: "0 \<le> x"
  have u: "0 < ulp x" unfolding ulp_def by (rule spacing_pos) simp
  with x have "0 \<le> x / ulp x" by simp
  then have "0 \<le> round_half_even (x / ulp x)" by (rule round_half_even_nonneg)
  with u show ?thesis unfolding round_double_def by simp
qed

lemma round_double_upper:
  assumes "0 \<le> x"
  shows "round_double x \<le> x * (1 + 1 / 2 ^ 53) + 1 / 2 ^ 1075"
proof -
  have u: "0 < ulp x" unfolding ulp_def by (rule spacing_pos) simp
  have "ulp x \<le> (1 / 2 ^ 51) * x / 2 + (1 / 2 ^ 51) / 2 ^ 1023"
    unfolding ulp_def using assms by (intro spacing_bound) simp_all
  also have "\<dots> = x / 2 ^ 52 + 1 / 2 ^ 1074"
    by (simp add: power_add [symmetric] del: power_Suc)
  finally have ub: "ulp x \<le> x / 2 ^ 52 + 1 / 2 ^ 1074" .
  have "of_int (round_half_even (x / ulp x)) * ulp x \<le> (x / ulp x + 1 / 2) * ulp x"
    using round_half_even_upper [of "x / ulp x"] u
    by (intro mult_right_mono) simp_all
  also have "\<dots> = x + ulp x / 2" using u by (simp add: field_simps)
  also have "\<dots> \<le> x + (x / 2 ^ 52 + 1 / 2 ^ 1074) / 2" using ub by simp
  also have "\<dots> = x * (1 + 1 / 2 ^ 53) + 1 / 2 ^ 1075"
    by (simp add: field_simps)
  finally have "of_int (round_half_even (x / ulp x)) * ulp x \<le> x * (1 + 1 / 2 ^ 53) + 1 / 2 ^ 1075" .
  moreover have "(0::rat) \<le> 0 * (1 + 1 / 2 ^ 53) + 1 / 2 ^ 1075" by simp
  ultimately show ?thesis by (simp add: round_double_def)
qed

lemma random_index_in_range:
  assumes "0 \<le> r" "r \<le> 1 - 1 / 2 ^ 53" "ts \<noteq> []"
  shows "\<exists>t \<in> set ts. at_index ts \<lfloor>round_double (r * of_nat (length ts))\<rfloor> = Some t"
proof -
  let ?n = "length ts"
  let ?x = "r * of_nat ?n"
  have n: "1 \<le> (of_nat ?n :: rat)" using assms(3) by (cases ts) simp_all
  have x0: "0 \<le> ?x" using assms(1) by simp
  have lo: "0 \<le> \<lfloor>round_double ?x\<rfloor>" using round_double_nonneg [OF x0] by simp
  have h1: "?x \<le> (1 - 1 / 2 ^ 53) * of_nat ?n"
    by (rule mult_right_mono [OF assms(2)]) simp
  have "?x * (1 + 1 / 2 ^ 53) \<le> (1 - 1 / 2 ^ 53) * of_nat ?n * (1 + 1 / 2 ^ 53)"
    by (rule mult_right_mono [OF h1]) simp
  also have "\<dots> = of_nat ?n - of_nat ?n * (1 / 2 ^ 106)"
    by (simp add: algebra_simps power_add [symmetric] del: power_Suc)
  also have "\<dots> \<le> of_nat ?n - 1 / 2 ^ 106"
    using n by simp
  finally have "round_double ?x \<le> of_nat ?n - 1 / 2 ^ 106 + 1 / 2 ^ 1075"
    using round_double_upper [OF x0] by linarith
  moreover have "(1::rat) / 2 ^ 1075 < 1 / 2 ^ 106"
    by (simp add: power_strict_increasing_iff divide_simps)
  ultimately have "round_double ?x < of_nat ?n" by linarith
  then have hi: "\<lfloor>round_double ?x\<rfloor> < int ?n"
    by (simp add: floor_less_iff)
  from lo hi have "nat \<lfloor>round_double ?x\<rfloor> < ?n" by linarith
  then have "ts ! nat \<lfloor>round_double ?x\<rfloor> \<in> set ts" by simp
  with lo hi show ?thesis by (auto simp: at_index_def)
qed

lemma sublist_mid: "sublist l (p @ l @ q)"
  by (rule sublist_appendI)

lemma sublist_end: "sublist l (p @ l)"
  using sublist_appendI [of l p "[]"] by simp

lemma templates_contain_label:
  "questionTemplates l ty = Own ts \<Longrightarrow> t \<in> set ts \<Longrightarrow> sublist l t"
  unfolding questionTemplates_def
  by (auto split: if_splits intro: sublist_mid sublist_end
      simp del: append.simps append_Cons append_Nil)

lemma templates_nonempty:
  "questionTemplates l ty = Own ts \<Longrightarrow> ts \<noteq> []"
  unfolding questionTemplates_def by (auto split: if_splits)

lemma text_templates: "\<exists>ts. questionTemplates l ''text'' = Own ts"
  unfolding questionTemplates_def by simp

lemma not_inherited:
  "ty \<notin> set object_prototype_members \<Longrightarrow> questionTemplates l ty \<noteq> Inherited"
  unfolding questionTemplates_def by simp

lemma generateQuestion_contains_label:
  assumes "0 \<le> r" "r \<le> 1 - 1 / 2 ^ 53" "f_type f \<notin> set object_prototype_members"
  shows "\<exists>q. generateQuestion f r = Str q \<and> sublist (humanLabel f) q"
proof -
  obtain ts where ts: "questionTemplates (humanLabel f)
      (if questionTemplates (humanLabel f) (f_type f) = Absent then ''text'' else f_type f) = Own ts"
    using text_templates [of "humanLabel f"] not_inherited [OF assms(3), of "humanLabel f"]
    by (cases "questionTemplates (humanLabel f) (f_type f)") auto
  have sel: "(case questionTemplates (humanLabel f) (f_type f) of
                Absent \<Rightarrow> questionTemplates (humanLabel f) ''text''
              | found \<Rightarrow> found) = Own ts"
    using ts by (cases "questionTemplates (humanLabel f) (f_type f)") auto
  from random_index_in_range [OF assms(1,2) templates_nonempty [OF ts]]
  obtain t where t: "t \<in> set ts" "at_index ts \<lfloor>round_double (r * of_nat (length ts))\<rfloor> = Some t"
    by blast
  have "generateQuestion f r = Str t"
    using t(2) sel by (simp add: generateQuestion_def Let_def)
  moreover have "sublist (humanLabel f) t"
    using templates_contain_label [OF ts t(1)] .
  ultimately show ?thesis by blast
qed

lemma generateQuestion_depends:
  "f_type f = f_type g \<Longrightarrow> humanLabel f = humanLabel g \<Longrightarrow>
     generateQuestion f r = generateQuestion g r"
  by (simp add: generateQuestion_def)

lemma generateQuestion_fallback:
  assumes "f_type f \<notin> {''email'', ''tel'', ''password'', ''textarea'', ''text''}"
    and "f_type f \<notin> set object_prototype_members"
  shows "generateQuestion f r = generateQuestion (f\<lparr>f_type := ''text''\<rparr>) r"
proof -
  have "questionTemplates (humanLabel f) (f_type f) = Absent"
    using assms unfolding questionTemplates_def by simp
  moreover obtain ts where "questionTemplates (humanLabel f) ''text'' = Own ts"
    using text_templates [of "humanLabel f"] by auto
  ultimately show ?thesis
    by (simp add: generateQuestion_def Let_def)
qed

subsection \<open>The autofill loop\<close>


lemma fillStep_errorCount:
  "errorCount (fillStep w rs st f) = errorCount st + (if fieldFilled w rs f then 0 else 1)"
  by (simp add: fillStep_def fieldFilled_def Let_def split: option.splits)


lemma foldl_fillStep_errorCount:
  "errorCount (foldl (fillStep w rs) st fs) = errorCount st + length (failedFields w fs rs)"
  by (induction fs arbitrary: st) (simp_all add: fillStep_errorCount failedFields_def)

lemma FormAnalyzer_fillForm_iff:
  "FormAnalyzer_fillForm w fs rs \<longleftrightarrow> failedFields w fs rs = []"
  by (simp add: FormAnalyzer_fillForm_def fillLoop_def foldl_fillStep_errorCount)


lemma fillForm_state:
  "currentState (fillForm e s) =
    (if active_tab e \<and> fill_channel e = None \<and>
        failedFields (writer e) (content_fields e) (fillData_of (fieldResponses s)) = []
     then COMPLETED else FILLING)"
  by (simp add: fillForm_def Let_def setState_def notifyPopup_def emit_def
      FormAnalyzer_fillForm_iff split: option.splits)

lemma fillForm_failure_message:
  "active_tab e \<Longrightarrow> fill_channel e = None \<Longrightarrow>
   failedFields (writer e) (content_fields e) (fillData_of (fieldResponses s)) \<noteq> [] \<Longrightarrow>
   last (effects (fillForm e s)) = Notify (ERROR_MSG ''Failed to fill form: Form filling failed'')"
  by (simp add: fillForm_def Let_def setState_def notifyPopup_def emit_def
      FormAnalyzer_fillForm_iff del: append.simps)

subsection \<open>Objects\<close>

lemma map_of_Some_key: "map_of rs k = Some v \<Longrightarrow> k \<in> fst ` set rs"
  using map_of_eq_None_iff [of rs k] by simp

lemma keys_obj_insert: "fst ` set (obj_insert k v kvs) = insert k (fst ` set kvs)"
  by (induction kvs) (auto split: option.splits)



lemma keys_obj_set: "fst ` set (obj_set k v kvs) = insert k (fst ` set kvs)"
  by (auto simp: obj_set_def keys_obj_insert dom_update map_of_Some_key split: option.splits)



subsection \<open>Validation requests\<close>

lemma validate_requests_append [simp]:
  "validate_requests (xs @ ys) = validate_requests xs @ validate_requests ys"
  by (simp add: validate_requests_def)

lemma validate_requests_simps [simp]:
  "validate_requests [] = []"
  "validate_requests (Notify n # xs) = validate_requests xs"
  "validate_requests (POST_tts q # xs) = validate_requests xs"
  "validate_requests (SetTimeout t d # xs) = validate_requests xs"
  "validate_requests (SendMessage_ANALYZE_PAGE # xs) = validate_requests xs"
  "validate_requests (SendMessage_FILL_FORM fd # xs) = validate_requests xs"
  "validate_requests (POST_validate a b # xs) = (a, b) # validate_requests xs"
  by (simp_all add: validate_requests_def)




lemma invalidStep_subset:
  "fst ` set acc \<subseteq> set flds \<Longrightarrow> fst ` set (invalidStep flds acc entry) \<subseteq> set flds"
  by (cases entry) (auto simp: invalidStep_def find_Some_iff split: option.splits)

lemma foldl_invalidStep_subset:
  "fst ` set acc \<subseteq> set flds \<Longrightarrow> fst ` set (foldl (invalidStep flds) acc res) \<subseteq> set flds"
  by (induction res arbitrary: acc) (simp_all add: invalidStep_subset)

lemma findInvalid_subset: "fst ` set (findInvalid flds res) \<subseteq> set flds"
  unfolding findInvalid_def by (rule foldl_invalidStep_subset) simp

lemma storeAnswer_frame:
  "currentState (storeAnswer cf t s) = currentState s"
  "detectedFields (storeAnswer cf t s) = detectedFields s"
  "currentFieldIndex (storeAnswer cf t s) = currentFieldIndex s + 1"
  "retryCount (storeAnswer cf t s) = retryCount s"
  "fst ` set (fieldResponses (storeAnswer cf t s)) = insert (humanLabel cf) (fst ` set (fieldResponses s))"
  "validate_requests (effects (storeAnswer cf t s)) = validate_requests (effects s)"
  by (simp_all add: storeAnswer_def small_defs keys_obj_set)

lemma storeResponse_Inl: "storeResponse e t s = Inl (s', m) \<Longrightarrow> s' = s"
  by (auto simp: storeResponse_def Let_def split: option.splits)

lemma retryQuestion_frame:
  "detectedFields (retryQuestion m s) = detectedFields s"
  "fieldResponses (retryQuestion m s) = fieldResponses s"
  "currentFieldIndex (retryQuestion m s) = currentFieldIndex s"
  "retryCount (retryQuestion m s) = retryCount s + 1"
  "validate_requests (effects (retryQuestion m s)) = validate_requests (effects s)"
  by (simp_all add: retryQuestion_def small_defs)

lemma retryQuestion_state:
  "currentState (retryQuestion m s) = (if retryCount s + 1 \<le> 3 then currentState s else ERROR)"
  by (simp add: retryQuestion_def small_defs maxRetries_def)

subsection \<open>The retry counter\<close>

lemma at_index_indexOf: "x \<in> set xs \<Longrightarrow> at_index xs (indexOf xs x) = Some x"
proof (induction xs)
  case Nil
  then show ?case by simp
next
  case (Cons y ys)
  show ?case
  proof (cases "y = x")
    case True
    then show ?thesis by (simp add: at_index_def)
  next
    case False
    with Cons.prems have x: "x \<in> set ys" by simp
    from Cons.IH [OF x] have i: "0 \<le> indexOf ys x" "indexOf ys x < int (length ys)"
      and n: "ys ! nat (indexOf ys x) = x"
      by (auto simp: at_index_def split: if_splits)
    have "nat (indexOf ys x + 1) = Suc (nat (indexOf ys x))" using i(1) by simp
    with False i n show ?thesis
      by (simp add: at_index_def Let_def)
  qed
qed

lemma startCorrection_asks_current:
  "startCorrection e vr s =
    (case findInvalid (detectedFields s) (results vr) of
       [] \<Rightarrow> Inl (setState CORRECTING s, TypeError_reading ''field'')
     | first # rest \<Rightarrow>
         Inr (askCurrentQuestion e
               ((setState CORRECTING s)\<lparr>currentFieldIndex :=
                   indexOf (detectedFields s) (fst first)\<rparr>)))"
proof (cases "findInvalid (detectedFields s) (results vr)")
  case Nil
  then show ?thesis by (simp add: startCorrection_def setState_def)
next
  case (Cons first rest)
  with findInvalid_subset [of "detectedFields s" "results vr"]
  have "fst first \<in> set (detectedFields s)" by auto
  then have "at_index (detectedFields s) (indexOf (detectedFields s) (fst first)) = Some (fst first)"
    by (rule at_index_indexOf)
  with Cons show ?thesis
    by (simp add: startCorrection_def askCurrentQuestion_def setState_def)
qed

lemma askCurrentQuestion_retry: "retryCount (askCurrentQuestion e s) \<le> retryCount s"
  by (simp add: askCurrentQuestion_def validateResponses_frame askQuestion_frame split: option.splits)

lemma startConversation_retry: "retryCount (startConversation e s) \<le> retryCount s"
proof -
  have "retryCount (startConversation e s) \<le> retryCount (notifyPopup (CONVERSATION_STARTED (length (detectedFields s)))
     (s\<lparr>currentState := QUESTIONING, currentFieldIndex := 0, fieldResponses := []\<rparr>))"
    unfolding startConversation_def Let_def setState_def
    by (simp add: askCurrentQuestion_retry)
  then show ?thesis by (simp add: small_defs)
qed

lemma startProcessing_retry:
  "startProcessing e s = Inr s' \<Longrightarrow> retryCount s' \<le> retryCount s"
proof -
  assume a: "startProcessing e s = Inr s'"
  then obtain s5 where "s' = startConversation e s5" "retryCount s5 = retryCount s"
    by (auto simp: startProcessing_def small_defs split: analysis.splits if_splits)
  with startConversation_retry [of e s5] show ?thesis by simp
qed

lemma storeResponse_retry:
  "storeResponse e t s = Inr s' \<Longrightarrow> retryCount s' \<le> retryCount s"
  by (auto simp: storeResponse_def Let_def emit_def validateResponses_frame storeAnswer_frame
      split: option.splits if_splits)

lemma processVoiceResponse_failure:
  assumes "transcription e = Inl m"
  shows "processVoiceResponse e s = retryQuestion m s"
  using assms by (simp add: processVoiceResponse_def)

lemma processVoiceResponse_bound:
  assumes "retryCount s \<le> 3"
  shows "retryCount (processVoiceResponse e s) \<le> 3 \<or> currentState (processVoiceResponse e s) = ERROR"
proof -
  have r: "\<And>m. retryCount (retryQuestion m s) \<le> 3 \<or> currentState (retryQuestion m s) = ERROR"
    by (simp add: retryQuestion_frame retryQuestion_state)
  show ?thesis
  proof (cases "transcription e")
    case (Inl m)
    with r show ?thesis by (simp add: processVoiceResponse_def)
  next
    case (Inr t)
    show ?thesis
    proof (cases "storeResponse e t s")
      case (Inl p)
      then obtain s' m where p: "p = (s', m)" by (cases p)
      with Inl have "s' = s" by (simp add: storeResponse_Inl)
      with Inl p Inr r show ?thesis by (simp add: processVoiceResponse_def)
    next
      case (Inr s')
      with \<open>transcription e = Inr t\<close> storeResponse_retry [OF Inr] assms show ?thesis
        by (simp add: processVoiceResponse_def)
    qed
  qed
qed

lemma handleMessage_bound:
  assumes "retryCount s \<le> 3"
  shows "retryCount (handleMessage e msg s) \<le> 3 \<or> currentState (handleMessage e msg s) = ERROR"
proof (cases msg)
  case START_PROCESSING
  show ?thesis
  proof (cases "startProcessing e s")
    case (Inl p)
    then obtain s' m where p: "p = (s', m)" by (cases p)
    with Inl START_PROCESSING show ?thesis by (simp add: handleMessage_def small_defs)
  next
    case (Inr s')
    with startProcessing_retry [OF Inr] assms START_PROCESSING show ?thesis
      by (simp add: handleMessage_def)
  qed
next
  case STOP_PROCESSING
  then show ?thesis by (simp add: handleMessage_def stopProcessing_def small_defs)
next
  case CLEAR_DATA
  then show ?thesis by (simp add: handleMessage_def clearData_def small_defs)
next
  case VOICE_RECORDING_COMPLETE
  then show ?thesis using processVoiceResponse_bound [OF assms] by (simp add: handleMessage_def)
next
  case (FIELDS_DETECTED flds)
  with startConversation_retry [of e "s\<lparr>detectedFields := flds\<rparr>"] assms show ?thesis
    by (simp add: handleMessage_def)
qed

lemma step_bound:
  assumes "retryCount s \<le> 3"
  shows "retryCount (step s x) \<le> 3 \<or> currentState (step s x) = ERROR"
proof -
  obtain e ev where x: "x = (e, ev)" by (cases x)
  show ?thesis
  proof (cases ev)
    case (Message msg)
    with x handleMessage_bound [OF assms] show ?thesis by (simp add: step_def)
  next
    case AskTimerFired
    with x askCurrentQuestion_retry [of e s] assms show ?thesis by (simp add: step_def)
  next
    case RecordingCompleted
    with x processVoiceResponse_bound [OF assms] show ?thesis by (simp add: step_def)
  qed
qed

lemma run_bound:
  "retryCount s \<le> 3 \<or> currentState s = ERROR \<Longrightarrow> error_free xs s \<Longrightarrow>
   retryCount (run xs s) \<le> 3 \<or> currentState (run xs s) = ERROR"
proof (induction xs arbitrary: s)
  case Nil
  then show ?case by (simp add: run_def)
next
  case (Cons x xs)
  from Cons.prems have r: "retryCount s \<le> 3" and ef: "error_free xs (step s x)" by auto
  from Cons.IH [OF step_bound [OF r] ef] show ?case by (simp add: run_def)
qed

lemma retryQuestion_last:
  "retryCount s + 1 \<le> 3 \<Longrightarrow> last (effects (retryQuestion m s)) = SetTimeout Timer_askCurrentQuestion 2000"
  by (simp add: retryQuestion_def small_defs maxRetries_def)

lemma processVoiceResponse_next_field:
  assumes "transcription e = Inr t" "0 \<le> currentFieldIndex s"
    "currentFieldIndex s + 1 < int (length (detectedFields s))"
  shows "retryCount (processVoiceResponse e s) = retryCount s \<and>
         currentFieldIndex (processVoiceResponse e s) = currentFieldIndex s + 1"
  using assms
  by (simp add: processVoiceResponse_def storeResponse_def at_index_def Let_def emit_def
      storeAnswer_frame)

subsection \<open>The methods cut at their awaits\<close>

text \<open>Run back to back, the stretches of a method make up the method.\<close>

lemma askQuestion_cut:
  "askQuestion e fld s =
     speakQuestion_reply e (generateQuestion fld (math_random e)) (askCurrentQuestion_ask e fld s)"
  by (simp add: askQuestion_def speakQuestion_def speakQuestion_reply_def askCurrentQuestion_ask_def
      Let_def notifyPopup_def emit_def)

lemma fillForm_cut:
  "fillForm e s =
     (if active_tab e
      then fillForm_reply e (fillData_of (fieldResponses s)) (fillForm_tab e (fillForm_sync s))
      else fillForm_tab e (fillForm_sync s))"
  by (simp add: fillForm_def fillForm_sync_def fillForm_tab_def fillForm_reply_def
      Let_def notifyPopup_def emit_def setState_def split: option.splits)


lemma startCorrection_sync_asks:
  "startCorrection_sync e vr s =
    (case findInvalid (detectedFields s) (results vr) of
       [] \<Rightarrow> Inl (setState CORRECTING s, TypeError_reading ''field'')
     | first # rest \<Rightarrow>
         Inr (askCurrentQuestion_ask e (fst first)
               ((setState CORRECTING s)\<lparr>currentFieldIndex :=
                   indexOf (detectedFields s) (fst first)\<rparr>)))"
proof (cases "findInvalid (detectedFields s) (results vr)")
  case Nil
  then show ?thesis by (simp add: startCorrection_sync_def setState_def)
next
  case (Cons first rest)
  with findInvalid_subset [of "detectedFields s" "results vr"]
  have "fst first \<in> set (detectedFields s)" by auto
  then have "at_index (detectedFields s) (indexOf (detectedFields s) (fst first)) = Some (fst first)"
    by (rule at_index_indexOf)
  with Cons show ?thesis
    by (simp add: startCorrection_sync_def askCurrentQuestion_sync_def setState_def)
qed







lemma request_step_same:
  "validate_requests (effects s') = validate_requests (effects s) \<Longrightarrow> request_step s s'"
  by (simp add: request_step_def)











lemma fillForm_sync_data:
  "detectedFields (fillForm_sync s) = detectedFields s"
  "fieldResponses (fillForm_sync s) = fieldResponses s"
  "currentFieldIndex (fillForm_sync s) = currentFieldIndex s"
  "validate_requests (effects (fillForm_sync s)) = validate_requests (effects s)"
  by (simp_all add: fillForm_sync_def small_defs)







lemma validateResponses_cut:
  "validateResponses e s =
    (let s' = validateResponses_reply e (validateResponses_request s)
     in if currentState s' = FILLING
        then (if active_tab e
              then fillForm_reply e (fillData_of (fieldResponses s')) (fillForm_tab e s')
              else fillForm_tab e s')
        else (case at_index (detectedFields s') (currentFieldIndex s') of
                Some fld \<Rightarrow> speakQuestion_reply e (generateQuestion fld (math_random e)) s'
              | None \<Rightarrow> s'))"
proof -
  define s4 where "s4 = validateResponses_request s"
  have filling: "\<And>t. currentState (fillForm_sync t) = FILLING"
    by (simp add: fillForm_sync_def small_defs)
  have fill: "\<And>t. fillForm e t =
      (if active_tab e
       then fillForm_reply e (fillData_of (fieldResponses (fillForm_sync t)))
              (fillForm_tab e (fillForm_sync t))
       else fillForm_tab e (fillForm_sync t))"
    by (simp add: fillForm_cut fillForm_sync_data)
  show ?thesis
  proof (cases "validation e")
    case (Inl m)
    then show ?thesis
      by (simp add: validateResponses_def validateResponses_reply_def Let_def filling fill)
  next
    case (Inr vr)
    define s6 where "s6 = notifyPopup (VALIDATION_COMPLETED (all_valid vr) (invalid_count vr))
      (s4\<lparr>fieldResponses := mergeResults (results vr) (fieldResponses s4)\<rparr>)"
    show ?thesis
    proof (cases "truthy (all_valid vr)")
      case True
      with Inr show ?thesis
        by (simp add: validateResponses_def validateResponses_reply_def Let_def filling fill)
    next
      case False
      show ?thesis
      proof (cases "findInvalid (detectedFields s6) (results vr)")
        case Nil
        then have a: "startCorrection e vr s6 = Inl (setState CORRECTING s6, TypeError_reading ''field'')"
          and b: "startCorrection_sync e vr s6 = Inl (setState CORRECTING s6, TypeError_reading ''field'')"
          by (simp_all add: startCorrection_def startCorrection_sync_def setState_def)
        from Inr False a b show ?thesis
          by (simp add: validateResponses_def validateResponses_reply_def Let_def filling fill
              s4_def s6_def)
      next
        case (Cons first rest)
        define s2 where "s2 = (setState CORRECTING s6)\<lparr>currentFieldIndex :=
            indexOf (detectedFields s6) (fst first)\<rparr>"
        from Cons findInvalid_subset [of "detectedFields s6" "results vr"]
        have "fst first \<in> set (detectedFields s6)" by auto
        then have at: "at_index (detectedFields s2) (currentFieldIndex s2) = Some (fst first)"
          by (simp add: s2_def setState_def at_index_indexOf)
        have a: "startCorrection e vr s6 = Inr (askQuestion e (fst first) s2)"
          using Cons by (simp add: startCorrection_def s2_def setState_def)
        have b: "startCorrection_sync e vr s6 = Inr (askCurrentQuestion_ask e (fst first) s2)"
          using Cons by (simp add: startCorrection_sync_asks s2_def)
        have st: "currentState (askCurrentQuestion_ask e (fst first) s2) \<noteq> FILLING"
          by (simp add: askCurrentQuestion_ask_def small_defs s2_def)
        have at': "at_index (detectedFields (askCurrentQuestion_ask e (fst first) s2))
            (currentFieldIndex (askCurrentQuestion_ask e (fst first) s2)) = Some (fst first)"
          using at by (simp add: askCurrentQuestion_ask_def small_defs)
        from Inr False a b st at' show ?thesis
          by (simp add: validateResponses_def validateResponses_reply_def Let_def s4_def s6_def
              askQuestion_cut)
      qed
    qed
  qed
qed

subsection \<open>The body of the validation request\<close>






section \<open>The claims\<close>

subsection \<open>Correction pass (C1)\<close>

text \<open>C1. The claim: after a validation pass that reports an invalid field, the correction pass
  asks exactly the invalid fields again, and no field whose answer was reported valid. The
  code is evaluated on two fields, Email and Name, where the validation reply marks Email
  invalid (``missing @'') and Name valid: \<^verbatim>\<open>startCorrection\<close> finds exactly the Email field and
  asks it again, and after its new answer \<^verbatim>\<open>processVoiceResponse\<close> advances the cursor over
  \<^verbatim>\<open>detectedFields\<close>, so the Name question is asked again as well.\<close>

theorem C1_correction_reasks_valid_field:
  "map fst (findInvalid [email_field, name_field] (results reply_email_invalid)) = [email_field] \<and>
   summary (run (first_pass reply_email_invalid) constructor) =
     (CORRECTING, 0, 0, [''Email'', ''Name''], [''Email'', ''Name'', ''Email'']) \<and>
   summary (run (first_pass reply_email_invalid @ correction_pass) constructor) =
     (CORRECTING, 1, 0, [''Email'', ''Name''], [''Email'', ''Name'', ''Email'', ''Name''])"
  by code_simp

subsection \<open>Lookup of answers in the autofill loop (C2)\<close>




subsection \<open>Fields missing from the validation reply (C3)\<close>

text \<open>C3, the claim refuted. The claim: an answered field that is missing from the validation
  result map is marked invalid with reason ``no validation result''. The reply here has a
  result for Name only; the Email answer keeps \<^verbatim>\<open>valid\<close> and \<^verbatim>\<open>reason\<close> undefined.\<close>

theorem C3_missing_result_counterexample:
  "map_of (fieldResponses (run (first_pass reply_name_only) constructor)) ''Email'' =
     Some \<lparr>original = Str ''john at example'', normalized = Str ''john at example'',
       fieldType = ''email'', fieldName = ''email'', fieldId = ''email'',
       valid = Undefined, confidence = Undefined, reason = Undefined, suggestions = Undefined\<rparr>"
  by code_simp

text \<open>C3, as the code has it. The merge of \<^verbatim>\<open>validateResponses\<close> leaves the answer of every
  field that is missing from the result map as it was.\<close>

theorem C3_missing_result_left_unchanged:
  assumes "validation e = Inr vr" and "fName \<notin> fst ` set (results vr)"
  shows "map_of (fieldResponses (validateResponses e s)) fName = map_of (fieldResponses s) fName"
  using assms by (simp add: validateResponses_responses mergeResults_other)

text \<open>C3, an instance: the Email answer under a reply that has a result for Name only.\<close>

theorem C3_missing_result_left_unchanged_witness:
  "validation (judged ''Bob'' reply_name_only) = Inr reply_name_only \<and>
   ''Email'' \<notin> fst ` set (results reply_name_only) \<and>
   map_of (fieldResponses (validateResponses (judged ''Bob'' reply_name_only)
       (run (first_pass reply_all_valid) constructor))) ''Email'' =
   map_of (fieldResponses (run (first_pass reply_all_valid) constructor)) ''Email''"
proof -
  have v: "validation (judged ''Bob'' reply_name_only) = Inr reply_name_only"
    by (simp add: judged_def env_base_def)
  have k: "''Email'' \<notin> fst ` set (results reply_name_only)"
    by (simp add: reply_name_only_def)
  from C3_missing_result_left_unchanged [OF v k] v k show ?thesis by simp
qed

subsection \<open>The retry budget (C4)\<close>

text \<open>C4, the claim refuted. The claim: the retry counter is per field and capped at 3, the
  session being in \<open>ERROR\<close> once the cap is reached. After three failures in a row on the
  first question the session is still \<open>QUESTIONING\<close> with the counter at 3, and the question
  is asked a fourth time. And after two failures on the first question, its answer, and two
  failures on the second question, the session is in \<open>ERROR\<close> with the counter at 4, the
  second question having failed twice.\<close>

theorem C4_per_field_cap_counterexample:
  "summary (run three_failures constructor) =
     (QUESTIONING, 0, 3, [], [''Email'', ''Email'', ''Email'', ''Email'']) \<and>
   summary (run two_and_two_failures constructor) =
     (ERROR, 1, 4, [''Email''], [''Email'', ''Email'', ''Email'', ''Name'', ''Name''])"
  by code_simp

text \<open>C4, as the code has it. There is one retry counter for the session. A transcription failure
  increments it and leaves the cursor and the answers alone; while the incremented counter is
  at most 3 the state is kept and the timer that asks the same question again is set,
  otherwise the state becomes \<open>ERROR\<close>. An answer that moves the cursor to a next field
  leaves the counter as it is; \<^verbatim>\<open>validateResponses\<close> resets it to 0. In every run from the
  constructor in which no event is handled in the state \<open>ERROR\<close>, the counter is at most 3
  or the run ends in \<open>ERROR\<close>.\<close>

theorem C4_session_wide_retry_budget:
  "(transcription e = Inl m \<longrightarrow>
      retryCount (processVoiceResponse e s) = retryCount s + 1 \<and>
      currentFieldIndex (processVoiceResponse e s) = currentFieldIndex s \<and>
      fieldResponses (processVoiceResponse e s) = fieldResponses s \<and>
      (if retryCount s + 1 \<le> 3
       then currentState (processVoiceResponse e s) = currentState s \<and>
            last (effects (processVoiceResponse e s)) = SetTimeout Timer_askCurrentQuestion 2000
       else currentState (processVoiceResponse e s) = ERROR)) \<and>
   (transcription e' = Inr t \<and> 0 \<le> currentFieldIndex s' \<and>
    currentFieldIndex s' + 1 < int (length (detectedFields s')) \<longrightarrow>
      retryCount (processVoiceResponse e' s') = retryCount s' \<and>
      currentFieldIndex (processVoiceResponse e' s') = currentFieldIndex s' + 1) \<and>
   retryCount (validateResponses e'' s'') = 0 \<and>
   (error_free xs constructor \<longrightarrow>
      retryCount (run xs constructor) \<le> 3 \<or> currentState (run xs constructor) = ERROR)"
proof -
  have a: "transcription e = Inl m \<longrightarrow>
      retryCount (processVoiceResponse e s) = retryCount s + 1 \<and>
      currentFieldIndex (processVoiceResponse e s) = currentFieldIndex s \<and>
      fieldResponses (processVoiceResponse e s) = fieldResponses s \<and>
      (if retryCount s + 1 \<le> 3
       then currentState (processVoiceResponse e s) = currentState s \<and>
            last (effects (processVoiceResponse e s)) = SetTimeout Timer_askCurrentQuestion 2000
       else currentState (processVoiceResponse e s) = ERROR)"
    by (simp add: processVoiceResponse_failure retryQuestion_frame retryQuestion_state
        retryQuestion_last)
  have b: "transcription e' = Inr t \<and> 0 \<le> currentFieldIndex s' \<and>
    currentFieldIndex s' + 1 < int (length (detectedFields s')) \<longrightarrow>
      retryCount (processVoiceResponse e' s') = retryCount s' \<and>
      currentFieldIndex (processVoiceResponse e' s') = currentFieldIndex s' + 1"
    using processVoiceResponse_next_field [of e' t s'] by blast
  have c: "retryCount (validateResponses e'' s'') = 0"
    by (rule validateResponses_frame)
  have d: "error_free xs constructor \<longrightarrow>
      retryCount (run xs constructor) \<le> 3 \<or> currentState (run xs constructor) = ERROR"
    using run_bound [of constructor xs] by (simp add: constructor_def)
  from a b c d show ?thesis by blast
qed

text \<open>C4, an instance: the session after a start and one failure.\<close>

theorem C4_session_wide_retry_budget_witness:
  "transcription unheard = Inl ''Transcription failed: 500'' \<and>
   transcription (heard ''Bob'') = Inr (Str ''Bob'') \<and>
   0 \<le> currentFieldIndex (run one_failure constructor) \<and>
   currentFieldIndex (run one_failure constructor) + 1 <
     int (length (detectedFields (run one_failure constructor))) \<and>
   error_free one_failure constructor \<and>
   retryCount (run one_failure constructor) = 1 \<and>
   retryCount (processVoiceResponse unheard (run one_failure constructor)) = 2 \<and>
   currentState (processVoiceResponse unheard (run one_failure constructor)) =
     currentState (run one_failure constructor) \<and>
   retryCount (processVoiceResponse (heard ''Bob'') (run one_failure constructor)) = 1 \<and>
   (retryCount (run one_failure constructor) \<le> 3 \<or>
    currentState (run one_failure constructor) = ERROR)"
proof -
  let ?s = "run one_failure constructor"
  have t1: "transcription unheard = Inl ''Transcription failed: 500''"
    by (simp add: unheard_def)
  have t2: "transcription (heard ''Bob'') = Inr (Str ''Bob'')"
    by (simp add: heard_def)
  have su: "summary ?s = (QUESTIONING, 0, 1, [], [''Email''])" by code_simp
  have len: "length (detectedFields ?s) = 2" by code_simp
  have ef: "error_free one_failure constructor" by code_simp
  from su have i: "currentFieldIndex ?s = 0" and r: "retryCount ?s = 1"
    by (simp_all add: summary_def)
  note T = C4_session_wide_retry_budget [of unheard "''Transcription failed: 500''" ?s
      "heard ''Bob''" "Str ''Bob''" ?s unheard ?s one_failure]
  from T t1 r have a: "retryCount (processVoiceResponse unheard ?s) = 2"
    "currentState (processVoiceResponse unheard ?s) = currentState ?s"
    by simp_all
  from T t2 i len r have b: "retryCount (processVoiceResponse (heard ''Bob'') ?s) = 1"
    by simp
  from T ef have c: "retryCount ?s \<le> 3 \<or> currentState ?s = ERROR"
    by blast
  from t1 t2 i len ef r a b c show ?thesis by simp
qed

subsection \<open>The commit step (C5)\<close>

text \<open>C5, the claim refuted. The claim: if any field fails to fill, the session transitions to
  \<open>ERROR\<close>, carrying the failed fields. With a writer that rejects every value both fields
  fail, the state stays \<open>FILLING\<close>, and the notification carries a fixed message only.\<close>

theorem C5_failed_fill_leaves_state_filling_counterexample:
  "currentState (run rejected_run constructor) = FILLING \<and>
   failedFields writer_rejects [email_field, name_field]
     (fillData_of (fieldResponses (run rejected_run constructor))) = [email_field, name_field] \<and>
   last (effects (run rejected_run constructor)) =
     Notify (ERROR_MSG ''Failed to fill form: Form filling failed'')"
  by code_simp

text \<open>C5, as the code has it. After \<^verbatim>\<open>fillForm\<close> the state is \<open>COMPLETED\<close> exactly when an
  active tab was found, the \<^verbatim>\<open>FILL_FORM\<close> message was delivered and no field failed;
  otherwise it is \<open>FILLING\<close>. When fields failed, the last notification is the error
  message ``Failed to fill form: Form filling failed''.\<close>

theorem C5_completed_iff_no_failed_field:
  "currentState (fillForm e s) =
     (if active_tab e \<and> fill_channel e = None \<and>
         failedFields (writer e) (content_fields e) (fillData_of (fieldResponses s)) = []
      then COMPLETED else FILLING) \<and>
   (active_tab e \<and> fill_channel e = None \<and>
    failedFields (writer e) (content_fields e) (fillData_of (fieldResponses s)) \<noteq> [] \<longrightarrow>
      last (effects (fillForm e s)) =
        Notify (ERROR_MSG ''Failed to fill form: Form filling failed''))"
  using fillForm_state [of e s] fillForm_failure_message [of e s] by blast

text \<open>C5, an instance: a writer that rejects every value.\<close>

theorem C5_completed_iff_no_failed_field_witness:
  "active_tab (env_base\<lparr>writer := writer_rejects\<rparr>) \<and>
   fill_channel (env_base\<lparr>writer := writer_rejects\<rparr>) = None \<and>
   failedFields (writer (env_base\<lparr>writer := writer_rejects\<rparr>))
     (content_fields (env_base\<lparr>writer := writer_rejects\<rparr>))
     (fillData_of (fieldResponses constructor)) \<noteq> [] \<and>
   currentState (fillForm (env_base\<lparr>writer := writer_rejects\<rparr>) constructor) = FILLING \<and>
   last (effects (fillForm (env_base\<lparr>writer := writer_rejects\<rparr>) constructor)) =
     Notify (ERROR_MSG ''Failed to fill form: Form filling failed'')"
proof -
  let ?e = "env_base\<lparr>writer := writer_rejects\<rparr>"
  have a: "active_tab ?e" "fill_channel ?e = None"
    by (simp_all add: env_base_def)
  have f: "failedFields (writer ?e) (content_fields ?e) (fillData_of (fieldResponses constructor)) \<noteq> []"
    by code_simp
  from C5_completed_iff_no_failed_field [of ?e constructor] a f
  show ?thesis by simp
qed

subsection \<open>Stop while a recording is outstanding (C6)\<close>

text \<open>C6. The claim: after \<^verbatim>\<open>stop()\<close> in \<open>QUESTIONING\<close> the session is \<open>IDLE\<close> and the result
  of the recording that was outstanding is discarded, no answer being recorded for it. The
  code is evaluated on a start followed by a stop: the session is \<open>IDLE\<close> with no answers.
  When the recording then completes, \<^verbatim>\<open>processVoiceResponse\<close> stores its transcript as the
  answer of the first field. With a single detected field the late answer goes on to
  validation and form filling, and the session ends in \<open>COMPLETED\<close>.\<close>

theorem C6_recording_after_stop_is_stored:
  "summary (run started_then_stopped constructor) = (IDLE, 0, 0, [], [''Email'']) \<and>
   summary (run (started_then_stopped @ [(heard ''late answer'', RecordingCompleted)])
     constructor) = (IDLE, 1, 0, [''Email''], [''Email'']) \<and>
   map_of (fieldResponses (run (started_then_stopped @ [(heard ''late answer'', RecordingCompleted)])
     constructor)) ''Email'' =
     Some \<lparr>original = Str ''late answer'', normalized = Str ''late answer'',
       fieldType = ''email'', fieldName = ''email'', fieldId = ''email'',
       valid = Undefined, confidence = Undefined, reason = Undefined, suggestions = Undefined\<rparr> \<and>
   summary (run single_started_then_stopped constructor) = (IDLE, 0, 0, [], [''Email'']) \<and>
   summary (run (single_started_then_stopped @ [(env_single, RecordingCompleted)])
     constructor) = (COMPLETED, 1, 0, [''Email''], [''Email''])"
  by code_simp

subsection \<open>Stop and clear (C7)\<close>

text \<open>C7, the claim refuted. The claim: stop and clear both reset the detected field list. After
  a start and a stop the two detected fields are still there.\<close>

theorem C7_stop_keeps_fields_counterexample:
  "detectedFields (run started_then_stopped constructor) = [email_field, name_field]"
  by code_simp

text \<open>C7, as the code has it. The clear command resets the state to \<open>IDLE\<close>, the detected
  fields, the answers, the cursor and the retry count; the stop command resets the state, the
  answers, the cursor and the retry count, and keeps the detected fields.\<close>

theorem C7_clear_resets_all_stop_keeps_fields:
  "currentState (handleMessage e CLEAR_DATA s) = IDLE \<and>
   detectedFields (handleMessage e CLEAR_DATA s) = [] \<and>
   fieldResponses (handleMessage e CLEAR_DATA s) = [] \<and>
   currentFieldIndex (handleMessage e CLEAR_DATA s) = 0 \<and>
   retryCount (handleMessage e CLEAR_DATA s) = 0 \<and>
   currentState (handleMessage e STOP_PROCESSING s) = IDLE \<and>
   detectedFields (handleMessage e STOP_PROCESSING s) = detectedFields s \<and>
   fieldResponses (handleMessage e STOP_PROCESSING s) = [] \<and>
   currentFieldIndex (handleMessage e STOP_PROCESSING s) = 0 \<and>
   retryCount (handleMessage e STOP_PROCESSING s) = 0"
  by (simp add: handleMessage_def clearData_def stopProcessing_def small_defs)

subsection \<open>The batched validation request (C8)\<close>




subsection \<open>The question generator (C9)\<close>

text \<open>C9, the claim refuted. The claim: the generator is a pure function of the field's
  type, its label, an attempt number and an explicit seed, whose text always contains the
  label, an unknown type falling back to a default phrasing set. \<^verbatim>\<open>generateQuestion(field)\<close>
  has neither an attempt number nor a seed among its arguments; it draws from
  \<^verbatim>\<open>Math.random()\<close> itself: two calls on the same field, in which the draw is 0 and one half,
  return different texts. And for the unknown type \<^verbatim>\<open>constructor\<close> the lookup in the table
  finds the inherited member, no fallback is taken and the result is \<^verbatim>\<open>undefined\<close>.\<close>

theorem C9_same_field_different_question_counterexample:
  "generateQuestion email_field 0 = Str ''What is your email address for Email?'' \<and>
   generateQuestion email_field (1 / 2) = Str ''Please provide your email for Email'' \<and>
   generateQuestion email_field 0 \<noteq> generateQuestion email_field (1 / 2) \<and>
   generateQuestion (email_field\<lparr>f_type := ''constructor''\<rparr>) (1 / 2) = Undefined"
  by code_simp

text \<open>C9, as the code has it. The question text is a function of the field's type, its
  label and the value \<^verbatim>\<open>Math.random()\<close> returns during the call, and of nothing else; for a
  type that is not the name of a member of \<^verbatim>\<open>Object.prototype\<close> and a draw that is a double
  in \<open>[0, 1)\<close> (at most \<open>1 - 2\<^sup>-\<^sup>5\<^sup>3\<close>, the largest such double) it is a text that contains the
  label; and such a type outside the five of the table gets the phrasings of the type
  \<^verbatim>\<open>text\<close>.\<close>

theorem C9_question_depends_on_type_label_and_draw:
  "(f_type f = f_type g \<and> humanLabel f = humanLabel g \<longrightarrow>
      generateQuestion f r = generateQuestion g r) \<and>
   (0 \<le> r \<and> r \<le> 1 - 1 / 2 ^ 53 \<and> f_type f \<notin> set object_prototype_members \<longrightarrow>
      (\<exists>q. generateQuestion f r = Str q \<and> sublist (humanLabel f) q)) \<and>
   (f_type f \<notin> {''email'', ''tel'', ''password'', ''textarea'', ''text''} \<and>
    f_type f \<notin> set object_prototype_members \<longrightarrow>
      generateQuestion f r = generateQuestion (f\<lparr>f_type := ''text''\<rparr>) r)"
  using generateQuestion_depends [of f g r] generateQuestion_contains_label [of r f]
    generateQuestion_fallback [of f r]
  by blast

text \<open>C9, an instance: a field of the unknown type \<^verbatim>\<open>date\<close> with the draw one half.\<close>

theorem C9_question_depends_on_type_label_and_draw_witness:
  "f_type (email_field\<lparr>f_type := ''date''\<rparr>) =
     f_type (name_field\<lparr>f_type := ''date'', humanLabel := ''Email''\<rparr>) \<and>
   humanLabel (email_field\<lparr>f_type := ''date''\<rparr>) =
     humanLabel (name_field\<lparr>f_type := ''date'', humanLabel := ''Email''\<rparr>) \<and>
   (0::rat) \<le> 1 / 2 \<and> (1 / 2 :: rat) \<le> 1 - 1 / 2 ^ 53 \<and>
   f_type (email_field\<lparr>f_type := ''date''\<rparr>) \<notin> set object_prototype_members \<and>
   f_type (email_field\<lparr>f_type := ''date''\<rparr>) \<notin>
     {''email'', ''tel'', ''password'', ''textarea'', ''text''} \<and>
   generateQuestion (email_field\<lparr>f_type := ''date''\<rparr>) (1 / 2) =
     generateQuestion (name_field\<lparr>f_type := ''date'', humanLabel := ''Email''\<rparr>) (1 / 2) \<and>
   generateQuestion (email_field\<lparr>f_type := ''date''\<rparr>) (1 / 2) = Str ''Please provide Email'' \<and>
   sublist ''Email'' ''Please provide Email'' \<and>
   generateQuestion (email_field\<lparr>f_type := ''date''\<rparr>) (1 / 2) =
     generateQuestion (email_field\<lparr>f_type := ''text''\<rparr>) (1 / 2)"
proof -
  let ?f = "email_field\<lparr>f_type := ''date''\<rparr>"
  let ?g = "name_field\<lparr>f_type := ''date'', humanLabel := ''Email''\<rparr>"
  have a: "f_type ?f = f_type ?g" "humanLabel ?f = humanLabel ?g"
    by (simp_all add: email_field_def name_field_def)
  have b: "(0::rat) \<le> 1 / 2" "(1 / 2 :: rat) \<le> 1 - 1 / 2 ^ 53" by simp_all
  have p: "f_type ?f \<notin> set object_prototype_members"
    by (simp add: object_prototype_members_def)
  have c: "f_type ?f \<notin> {''email'', ''tel'', ''password'', ''textarea'', ''text''}"
    by simp
  have q: "generateQuestion ?f (1 / 2) = Str ''Please provide Email''"
    by code_simp
  have l: "humanLabel ?f = ''Email''" by (simp add: email_field_def)
  note T = C9_question_depends_on_type_label_and_draw [of ?f ?g "1 / 2"]
  from T a have e1: "generateQuestion ?f (1 / 2) = generateQuestion ?g (1 / 2)"
    by blast
  from T b p obtain q' where q': "generateQuestion ?f (1 / 2) = Str q'" "sublist (humanLabel ?f) q'"
    by blast
  from q' q l have e2: "sublist ''Email'' ''Please provide Email''"
    by simp
  from T c p have "generateQuestion ?f (1 / 2) = generateQuestion (?f\<lparr>f_type := ''text''\<rparr>) (1 / 2)"
    by blast
  then have e3: "generateQuestion ?f (1 / 2) = generateQuestion (email_field\<lparr>f_type := ''text''\<rparr>) (1 / 2)"
    by simp
  show ?thesis
    using a b p c e1 q e2 e3 by (intro conjI)
qed

subsection \<open>A falsy normalized value in the validation reply (C10)\<close>

text \<open>C10. When the result for an answered field has a falsy \<^verbatim>\<open>normalized\<close> and (as in the
  documented reply) no \<^verbatim>\<open>original\<close>, the merge stores \<^verbatim>\<open>undefined\<close> as the answer's
  normalized value, in place of the transcript stored before. The keys of the result map are
  distinct, as those of an object are.\<close>

theorem C10_falsy_normalized_becomes_undefined:
  assumes "validation e = Inr vr" and "distinct (map fst (results vr))"
    and "(fName, result) \<in> set (results vr)"
    and "map_of (fieldResponses s) fName = Some a"
    and "\<not> truthy (r_normalized result)" and "r_original result = Undefined"
  shows "map_of (fieldResponses (validateResponses e s)) fName =
     Some (a\<lparr>normalized := Undefined, valid := r_valid result,
       confidence := r_confidence result, reason := r_reason result,
       suggestions := r_suggestions result\<rparr>)"
  using mergeResults_hit [OF assms(2,3,4)] assms(1,5,6)
  by (simp add: validateResponses_responses js_or_def)

text \<open>C10, an instance: the reply gives the Email answer an empty normalized value.\<close>

theorem C10_falsy_normalized_becomes_undefined_witness:
  "validation (judged ''Bob'' reply_email_blank) = Inr reply_email_blank \<and>
   distinct (map fst (results reply_email_blank)) \<and>
   (''Email'', result_blank) \<in> set (results reply_email_blank) \<and>
   map_of (fieldResponses (run (first_pass reply_all_valid) constructor)) ''Email'' =
     Some \<lparr>original = Str ''john at example'', normalized = Str ''john@example.com'',
       fieldType = ''email'', fieldName = ''email'', fieldId = ''email'',
       valid = Bool True, confidence = Num 1, reason = Null, suggestions = Arr []\<rparr> \<and>
   \<not> truthy (r_normalized result_blank) \<and> r_original result_blank = Undefined \<and>
   map_of (fieldResponses (validateResponses (judged ''Bob'' reply_email_blank)
       (run (first_pass reply_all_valid) constructor))) ''Email'' =
     Some \<lparr>original = Str ''john at example'', normalized = Undefined,
       fieldType = ''email'', fieldName = ''email'', fieldId = ''email'',
       valid = Bool False, confidence = Num 0, reason = Str ''empty'', suggestions = Arr []\<rparr>"
proof -
  have v: "validation (judged ''Bob'' reply_email_blank) = Inr reply_email_blank"
    by (simp add: judged_def env_base_def)
  have d: "distinct (map fst (results reply_email_blank))"
    by (simp add: reply_email_blank_def)
  have m: "(''Email'', result_blank) \<in> set (results reply_email_blank)"
    by (simp add: reply_email_blank_def)
  have a: "map_of (fieldResponses (run (first_pass reply_all_valid) constructor)) ''Email'' =
     Some \<lparr>original = Str ''john at example'', normalized = Str ''john@example.com'',
       fieldType = ''email'', fieldName = ''email'', fieldId = ''email'',
       valid = Bool True, confidence = Num 1, reason = Null, suggestions = Arr []\<rparr>"
    by code_simp
  have t: "\<not> truthy (r_normalized result_blank)" and u: "r_original result_blank = Undefined"
    by (simp_all add: result_blank_def)
  from C10_falsy_normalized_becomes_undefined [OF v d m a t u] v d m a t u
  show ?thesis by (simp add: result_blank_def)
qed

end
